theory Spec2Isabelle
  imports Main "HOL-Library.Log_Nat"
begin

section \<open>Data model\<close>

text \<open>
  The question type of the quiz page (\<open>interface Question\<close>): question text, the four
  labelled options, the label of the correct answer and an explanation. The questions are
  the generator's JSON, which nothing checks against the interface, and the page compares
  \<open>correct_answer\<close> by \<open>===\<close>: so this field is what the JSON has there, a string, no
  value at all (\<open>undefined\<close>, the key is missing), \<open>null\<close>, or another JSON value, given
  by its text.
\<close>

datatype js_field = Undefined | Null | Text string | Other string

record Options =
  opt_A :: string
  opt_B :: string
  opt_C :: string
  opt_D :: string

record Question =
  question :: string
  options :: Options
  correct_answer :: js_field
  explanation :: string

text \<open>
  The rows of the two tables of the migration. \<open>quiz_attempts\<close>: primary key, owner,
  skill level, subjects, requested count, score (\<open>DEFAULT 0\<close>) and number of generated
  questions. \<open>quiz_questions\<close>: the owning attempt (a foreign key with
  \<open>ON DELETE CASCADE\<close>), the question's content, and the user's answer, which is nullable.
  The integer columns hold an array length and a tally, so they are natural numbers here.
  A table is the list of its rows in insertion order, which is the order of \<open>created_at\<close>
  (\<open>DEFAULT NOW()\<close>). A row of \<open>quiz_questions\<close> is also what an insert sends: there
  \<open>correct_answer\<close> may be null, which the column (\<open>NOT NULL\<close>) refuses.

  The migration enables row level security on \<open>quiz_attempts\<close> and declares policies for
  \<open>SELECT\<close> and \<open>INSERT\<close> only. The two flags of the store tell whether it has a policy
  that lets an owner update, or delete, the owner's attempts; in the store that the
  migration declares both are \<open>False\<close>.
\<close>

record QuizAttempt =
  row_id :: string
  user_id :: string
  skill_level :: string
  subjects :: "string list"
  question_count :: nat
  score :: nat
  total_questions :: nat

record QuizQuestion =
  attempt_id :: string
  question_text :: string
  options_col :: Options
  correct_answer_col :: "string option"
  user_answer :: "string option"
  explanation_col :: string

record db =
  quiz_attempts :: "QuizAttempt list"
  quiz_questions :: "QuizQuestion list"
  update_policy :: bool
  delete_policy :: bool

text \<open>
  The state of the quiz page: the five \<open>useState\<close> cells. \<open>answers\<close> is the sparse
  \<open>Record<number, string>\<close>; an index that was never answered is absent.
\<close>

record Quiz =
  questions :: "Question list"
  loading :: bool
  currentQuestion :: nat
  answers :: "nat \<rightharpoonup> string"
  attemptId :: string

definition Quiz_init :: Quiz where
  "Quiz_init = \<lparr>questions = [], loading = True, currentQuestion = 0,
                 answers = Map.empty, attemptId = []\<rparr>"

text \<open>What the user sees of a handler: a toast, or a navigation with its route state.\<close>

datatype effect =
  Toast_error string
| Toast_success string
| Navigate string "(string \<times> nat \<times> nat) option"

text \<open>
  How a call of the store client ends. The client resolves with \<open>{data, error}\<close>: the
  request is carried out by the store (\<open>Reaches\<close>), or it resolves with an error and the
  store is unchanged (\<open>Resolves_error\<close>); or the awaited promise rejects and the handler's
  \<open>catch\<close> block runs (\<open>Rejects\<close>).
\<close>

datatype call_outcome = Reaches | Resolves_error string | Rejects string

section \<open>The attempt store\<close>

text \<open>
  The only property of the syntax of a uuid that the client code relies on: the empty
  string, the initial \<open>attemptId\<close>, is not one.
\<close>

definition valid_uuid :: "string \<Rightarrow> bool" where
  "valid_uuid s = (s \<noteq> [])"

definition skill_levels :: "string list" where
  "skill_levels = [''Beginner'', ''Intermediate'', ''Advanced'']"

text \<open>
  The pages reach the store through the storage client. The operations below are the
  statements that the pages send, carried out under what the migration declares: the
  primary key, the \<open>CHECK\<close> on \<open>skill_level\<close>, \<open>NOT NULL\<close>, the foreign key of
  \<open>quiz_questions\<close> with its cascade, and row level security. Under row level security
  an insert that no policy admits is an error, and an update or a delete sees only the
  rows that a policy for that command admits: without such a policy it changes no row and
  is no error.
\<close>

text \<open>The insert into \<open>quiz_attempts\<close>; its policy admits the caller's own rows.\<close>

definition create_attempt :: "string \<Rightarrow> QuizAttempt \<Rightarrow> db \<Rightarrow> string + db" where
  "create_attempt caller row d =
     (if \<not> valid_uuid (row_id row) then Inl ''invalid input syntax for type uuid''
      else if row_id row \<in> set (map row_id (quiz_attempts d))
        then Inl ''duplicate key value violates unique constraint''
      else if skill_level row \<notin> set skill_levels
        then Inl ''new row violates check constraint''
      else if user_id row \<noteq> caller
        then Inl ''new row violates row-level security policy''
      else Inr (d\<lparr>quiz_attempts := quiz_attempts d @ [row]\<rparr>))"

text \<open>
  The condition of the policies of \<open>quiz_questions\<close>: the attempt exists and is the
  caller's.
\<close>

definition owns :: "db \<Rightarrow> string \<Rightarrow> string \<Rightarrow> bool" where
  "owns d caller aid =
     (filter (\<lambda>a. row_id a = aid \<and> user_id a = caller) (quiz_attempts d) \<noteq> [])"

text \<open>The insert into \<open>quiz_questions\<close>.\<close>

definition insert_question :: "string option \<Rightarrow> QuizQuestion \<Rightarrow> db \<Rightarrow> string + db" where
  "insert_question caller row d =
     (if \<not> valid_uuid (attempt_id row) then Inl ''invalid input syntax for type uuid''
      else if correct_answer_col row = None
        then Inl ''null value in column violates not-null constraint''
      else if attempt_id row \<notin> set (map row_id (quiz_attempts d))
        then Inl ''insert or update violates foreign key constraint''
      else case caller of
        None \<Rightarrow> Inl ''new row violates row-level security policy''
      | Some u \<Rightarrow>
          if \<not> owns d u (attempt_id row)
          then Inl ''new row violates row-level security policy''
          else Inr (d\<lparr>quiz_questions := quiz_questions d @ [row]\<rparr>))"

text \<open>
  The update of the score, \<open>update({ score }).eq("id", attemptId)\<close>: with an update
  policy it changes the caller's attempt of that id, without one it changes no row.
\<close>

definition update_attempt_score :: "string option \<Rightarrow> string \<Rightarrow> nat \<Rightarrow> db \<Rightarrow> string + db" where
  "update_attempt_score caller aid s d =
     (if \<not> valid_uuid aid then Inl ''invalid input syntax for type uuid''
      else if \<not> update_policy d then Inr d
      else Inr (d\<lparr>quiz_attempts :=
        map (\<lambda>a. if row_id a = aid \<and> Some (user_id a) = caller then a\<lparr>score := s\<rparr> else a)
          (quiz_attempts d)\<rparr>))"

text \<open>
  The two selects: the caller's attempts, newest first (the select policy admits the
  caller's own rows), and the questions of an attempt, oldest first.
\<close>

definition list_attempts :: "string \<Rightarrow> db \<Rightarrow> QuizAttempt list" where
  "list_attempts owner d = rev (filter (\<lambda>a. user_id a = owner) (quiz_attempts d))"

definition list_questions :: "string \<Rightarrow> db \<Rightarrow> QuizQuestion list" where
  "list_questions aid d = filter (\<lambda>q. attempt_id q = aid) (quiz_questions d)"

text \<open>
  The delete, \<open>delete().eq("user_id", owner)\<close>: with a delete policy it removes the
  owner's attempts and, by the cascade of the foreign key, their questions; without one
  it removes no row.
\<close>

definition delete_attempts :: "string \<Rightarrow> db \<Rightarrow> db" where
  "delete_attempts owner d =
     (if \<not> delete_policy d then d
      else
        let gone = map row_id (filter (\<lambda>a. user_id a = owner) (quiz_attempts d))
        in d\<lparr>quiz_attempts := filter (\<lambda>a. user_id a \<noteq> owner) (quiz_attempts d),
             quiz_questions := filter (\<lambda>q. attempt_id q \<notin> set gone) (quiz_questions d)\<rparr>)"

section \<open>The quiz page\<close>

subsection \<open>Loading: generateQuiz\<close>

record request_body =
  subject :: string
  skillLevel :: string
  questionCount :: nat

text \<open>
  The result of \<open>supabase.functions.invoke\<close>: an error with its message (the empty
  message stands for a missing one), or the data, whose \<open>questions\<close> field may be
  missing. An empty array is a truthy value, so \<open>Some []\<close> passes the test
  \<open>if (data?.questions)\<close>.
\<close>

datatype invoke_result = Invoke_error string | Invoke_data "Question list option"

record gen_env =
  invoke :: "request_body \<Rightarrow> invoke_result"
  session_user :: "string option"
  attempt_insert :: call_outcome
  new_id :: string

fun join :: "string list \<Rightarrow> string" where
  "join [] = []"
| "join [s] = s"
| "join (s # t # ss) = s @ '', '' @ join (t # ss)"

definition message_or :: "string \<Rightarrow> string \<Rightarrow> string" where
  "message_or msg dflt = (if msg = [] then dflt else msg)"

definition generate_failed :: "string \<Rightarrow> effect list" where
  "generate_failed msg =
     [Toast_error (message_or msg ''Failed to generate quiz. Please try again.''),
      Navigate ''/dashboard'' None]"

definition generateQuiz ::
  "string \<Rightarrow> string list \<Rightarrow> nat \<Rightarrow> gen_env \<Rightarrow> Quiz \<times> db \<Rightarrow> Quiz \<times> db \<times> effect list" where
  "generateQuiz skill subjs cnt env sd =
     (let st = (fst sd)\<lparr>loading := True\<rparr>; d = snd sd;
          subj = (if length subjs = 1 then subjs ! 0 else join subjs)
      in case invoke env \<lparr>subject = subj, skillLevel = skill, questionCount = cnt\<rparr> of
        Invoke_error msg \<Rightarrow> (st\<lparr>loading := False\<rparr>, d, generate_failed msg)
      | Invoke_data None \<Rightarrow> (st\<lparr>loading := False\<rparr>, d, [])
      | Invoke_data (Some qs) \<Rightarrow>
          (let st1 = st\<lparr>questions := qs\<rparr> in
           case session_user env of
             None \<Rightarrow> (st1\<lparr>loading := False\<rparr>, d, [])
           | Some u \<Rightarrow>
               (case attempt_insert env of
                  Rejects msg \<Rightarrow> (st1\<lparr>loading := False\<rparr>, d, generate_failed msg)
                | Resolves_error msg \<Rightarrow> (st1\<lparr>loading := False\<rparr>, d, generate_failed msg)
                | Reaches \<Rightarrow>
                    (case create_attempt u
                        \<lparr>row_id = new_id env, user_id = u, skill_level = skill,
                         subjects = subjs, question_count = cnt, score = 0,
                         total_questions = length qs\<rparr> d of
                       Inl msg \<Rightarrow> (st1\<lparr>loading := False\<rparr>, d, generate_failed msg)
                     | Inr d' \<Rightarrow>
                         (st1\<lparr>attemptId := new_id env, loading := False\<rparr>, d', [])))))"

subsection \<open>InProgress: the cursor and the answers\<close>

definition handleAnswer :: "string \<Rightarrow> Quiz \<Rightarrow> Quiz" where
  "handleAnswer v st = st\<lparr>answers := (answers st)(currentQuestion st \<mapsto> v)\<rparr>"

definition handleNext :: "Quiz \<Rightarrow> Quiz" where
  "handleNext st =
     (if int (currentQuestion st) < int (length (questions st)) - 1
      then st\<lparr>currentQuestion := currentQuestion st + 1\<rparr> else st)"

definition handlePrevious :: "Quiz \<Rightarrow> Quiz" where
  "handlePrevious st =
     (if currentQuestion st > 0
      then st\<lparr>currentQuestion := currentQuestion st - 1\<rparr> else st)"

datatype action = Answer string | Next | Previous

fun act :: "action \<Rightarrow> Quiz \<Rightarrow> Quiz" where
  "act (Answer v) st = handleAnswer v st"
| "act Next st = handleNext st"
| "act Previous st = handlePrevious st"

definition run_actions :: "action list \<Rightarrow> Quiz \<Rightarrow> Quiz" where
  "run_actions acts st = foldl (\<lambda>s a. act a s) st acts"

subsection \<open>Submitting: handleSubmit\<close>

record submit_env =
  caller :: "string option"
  insert_call :: "nat \<Rightarrow> call_outcome"
  update_call :: call_outcome

text \<open>\<open>userAnswer || null\<close>: a missing answer and the empty string both become null.\<close>

definition or_null :: "string option \<Rightarrow> string option" where
  "or_null a = (case a of None \<Rightarrow> None | Some s \<Rightarrow> if s = [] then None else Some s)"

text \<open>
  \<open>userAnswer === correctAnswer\<close>: a recorded answer is a string and equals the same
  string only; a missing answer is \<open>undefined\<close> and equals \<open>undefined\<close> only.
\<close>

definition strict_eq :: "string option \<Rightarrow> js_field \<Rightarrow> bool" where
  "strict_eq a c = (case a of None \<Rightarrow> c = Undefined | Some s \<Rightarrow> c = Text s)"

text \<open>
  What the insert sends for the column \<open>correct_answer\<close>: a missing key and \<open>null\<close> give
  no value, a string is sent as it is, another value as its text.
\<close>

definition text_column :: "js_field \<Rightarrow> string option" where
  "text_column c =
     (case c of Undefined \<Rightarrow> None | Null \<Rightarrow> None | Text s \<Rightarrow> Some s | Other s \<Rightarrow> Some s)"

text \<open>
  The \<open>for\<close> loop of \<open>handleSubmit\<close>, from index \<open>i\<close> on, where \<open>qs\<close> holds
  \<open>questions[i]\<close>, \<open>questions[i + 1]\<close>, ... It compares \<open>answers[i]\<close> with the correct
  answer by \<open>===\<close>, counts, and awaits the insert, whose result is dropped: only a
  rejected promise leaves the loop (\<open>Inl\<close>, for the \<open>catch\<close> block, with the store as
  the earlier inserts left it).
\<close>

fun submit_loop ::
  "submit_env \<Rightarrow> Quiz \<Rightarrow> Question list \<Rightarrow> nat \<Rightarrow> nat \<Rightarrow> db
     \<Rightarrow> (string \<times> db) + (nat \<times> db)" where
  "submit_loop env st [] i sc d = Inr (sc, d)"
| "submit_loop env st (q # qs) i sc d =
     (let userAnswer = answers st i;
          correctAnswer = correct_answer q;
          sc' = (if strict_eq userAnswer correctAnswer then sc + 1 else sc)
      in case insert_call env i of
        Rejects msg \<Rightarrow> Inl (msg, d)
      | Resolves_error msg \<Rightarrow> submit_loop env st qs (i + 1) sc' d
      | Reaches \<Rightarrow>
          (case insert_question (caller env)
              \<lparr>attempt_id = attemptId st, question_text = question q,
               options_col = options q, correct_answer_col = text_column correctAnswer,
               user_answer = or_null userAnswer, explanation_col = explanation q\<rparr> d of
             Inl msg \<Rightarrow> submit_loop env st qs (i + 1) sc' d
           | Inr d' \<Rightarrow> submit_loop env st qs (i + 1) sc' d'))"

definition handleSubmit :: "submit_env \<Rightarrow> Quiz \<times> db \<Rightarrow> db \<times> effect list" where
  "handleSubmit env sd =
     (let st = fst sd; d = snd sd in
      case submit_loop env st (questions st) 0 0 d of
        Inl (msg, d1) \<Rightarrow> (d1, [Toast_error ''Failed to submit quiz. Please try again.''])
      | Inr (sc, d1) \<Rightarrow>
          (case update_call env of
             Rejects msg \<Rightarrow> (d1, [Toast_error ''Failed to submit quiz. Please try again.''])
           | Resolves_error msg \<Rightarrow> (d1, [Toast_error ''Failed to save score. Please try again.''])
           | Reaches \<Rightarrow>
               (case update_attempt_score (caller env) (attemptId st) sc d1 of
                  Inl msg \<Rightarrow> (d1, [Toast_error ''Failed to save score. Please try again.''])
                | Inr d2 \<Rightarrow>
                    (d2, [Navigate ''/results''
                            (Some (attemptId st, sc, length (questions st)))]))))"

subsection \<open>The score of the specification\<close>




subsection \<open>Invariants of the store\<close>

definition score_invariant :: "db \<Rightarrow> bool" where
  "score_invariant d = list_all (\<lambda>a. score a \<le> total_questions a) (quiz_attempts d)"

definition ids_valid :: "db \<Rightarrow> bool" where
  "ids_valid d = list_all (\<lambda>a. valid_uuid (row_id a)) (quiz_attempts d)"

text \<open>The attempt of the page, if the store has it, has as many questions as the page.\<close>

definition linked :: "Quiz \<Rightarrow> db \<Rightarrow> bool" where
  "linked st d =
     list_all (\<lambda>a. row_id a \<noteq> attemptId st \<or> total_questions a = length (questions st))
       (quiz_attempts d)"

section \<open>The performance page\<close>

subsection \<open>clearHistory\<close>

record clear_env =
  session :: "string option"
  delete_call :: call_outcome

definition clearHistory ::
  "clear_env \<Rightarrow> QuizAttempt list \<times> db \<Rightarrow> QuizAttempt list \<times> db \<times> effect list" where
  "clearHistory env sd =
     (let attempts = fst sd; d = snd sd in
      case session env of
        None \<Rightarrow> (attempts, d, [Toast_error ''You must be logged in to clear history''])
      | Some u \<Rightarrow>
          (case delete_call env of
             Rejects msg \<Rightarrow> (attempts, d, [Toast_error ''Failed to clear history''])
           | Resolves_error msg \<Rightarrow> (attempts, d, [Toast_error ''Failed to clear history''])
           | Reaches \<Rightarrow>
               ([], delete_attempts u d,
                [Toast_success ''Performance history cleared successfully''])))"

subsection \<open>Numbers as the page computes them\<close>

text \<open>
  A number of the page is an IEEE 754 binary64 value: a finite one, given by the rational
  it denotes, an infinity, or NaN. Negative zero is not told apart from zero; every number
  computed below is non-negative or NaN.
\<close>

datatype jsnum = Fin rat | PosInf | NegInf | NaN

text \<open>
  Rounding to binary64, to nearest with ties to even: \<open>ilog2 x\<close> is the exponent of
  \<open>x > 0\<close>, the unit in the last place is \<open>2 ^ (e - 52)\<close> with \<open>e\<close> no smaller than
  the least normal exponent (below it the numbers are subnormal), and a result from
  \<open>2 ^ 1024\<close> on overflows to an infinity.
\<close>

definition pow2 :: "int \<Rightarrow> rat" where
  "pow2 e = power_int 2 e"

definition ilog2 :: "rat \<Rightarrow> int" where
  "ilog2 x = (if 1 \<le> x then bitlen \<lfloor>x\<rfloor> - 1 else - bitlen (\<lceil>1 / x\<rceil> - 1))"

definition round_even :: "rat \<Rightarrow> int" where
  "round_even y =
     (let f = \<lfloor>y\<rfloor>; r = y - of_int f
      in if r < 1 / 2 then f else if 1 / 2 < r then f + 1
         else if even f then f else f + 1)"

definition fl_pos :: "rat \<Rightarrow> rat" where
  "fl_pos x =
     (let e = max (ilog2 x) (- 1022); u = pow2 (e - 52)
      in of_int (round_even (x / u)) * u)"

definition fl :: "rat \<Rightarrow> rat" where
  "fl x = (if x = 0 then 0 else if x < 0 then - fl_pos (- x) else fl_pos x)"

definition to_double :: "rat \<Rightarrow> jsnum" where
  "to_double x =
     (let y = fl x
      in if pow2 1024 \<le> y then PosInf else if y \<le> - pow2 1024 then NegInf else Fin y)"

text \<open>The operators \<open>+\<close>, \<open>*\<close> and \<open>/\<close>, \<open>Math.round\<close> and \<open>Math.max\<close>.\<close>

fun js_add :: "jsnum \<Rightarrow> jsnum \<Rightarrow> jsnum" where
  "js_add (Fin a) (Fin b) = to_double (a + b)"
| "js_add NaN _ = NaN"
| "js_add _ NaN = NaN"
| "js_add PosInf NegInf = NaN"
| "js_add NegInf PosInf = NaN"
| "js_add PosInf _ = PosInf"
| "js_add NegInf _ = NegInf"
| "js_add _ PosInf = PosInf"
| "js_add _ NegInf = NegInf"

definition sign_inf :: "bool \<Rightarrow> jsnum" where
  "sign_inf negative = (if negative then NegInf else PosInf)"

fun js_mul :: "jsnum \<Rightarrow> jsnum \<Rightarrow> jsnum" where
  "js_mul (Fin a) (Fin b) = to_double (a * b)"
| "js_mul NaN _ = NaN"
| "js_mul _ NaN = NaN"
| "js_mul (Fin a) PosInf = (if a = 0 then NaN else sign_inf (a < 0))"
| "js_mul (Fin a) NegInf = (if a = 0 then NaN else sign_inf (0 < a))"
| "js_mul PosInf (Fin b) = (if b = 0 then NaN else sign_inf (b < 0))"
| "js_mul NegInf (Fin b) = (if b = 0 then NaN else sign_inf (0 < b))"
| "js_mul PosInf PosInf = PosInf"
| "js_mul NegInf NegInf = PosInf"
| "js_mul PosInf NegInf = NegInf"
| "js_mul NegInf PosInf = NegInf"

fun js_div :: "jsnum \<Rightarrow> jsnum \<Rightarrow> jsnum" where
  "js_div (Fin a) (Fin b) =
     (if b = 0 then (if a = 0 then NaN else sign_inf (a < 0)) else to_double (a / b))"
| "js_div NaN _ = NaN"
| "js_div _ NaN = NaN"
| "js_div (Fin a) _ = Fin 0"
| "js_div PosInf (Fin b) = sign_inf (b < 0)"
| "js_div NegInf (Fin b) = sign_inf (0 \<le> b)"
| "js_div _ _ = NaN"

fun Math_round :: "jsnum \<Rightarrow> jsnum" where
  "Math_round (Fin x) = Fin (of_int \<lfloor>x + 1 / 2\<rfloor>)"
| "Math_round x = x"

fun js_less :: "jsnum \<Rightarrow> jsnum \<Rightarrow> bool" where
  "js_less (Fin a) (Fin b) = (a < b)"
| "js_less NaN _ = False"
| "js_less _ NaN = False"
| "js_less NegInf b = (b \<noteq> NegInf)"
| "js_less a PosInf = (a \<noteq> PosInf)"
| "js_less _ _ = False"

fun Math_max_from :: "jsnum \<Rightarrow> jsnum list \<Rightarrow> jsnum" where
  "Math_max_from highest [] = highest"
| "Math_max_from highest (x # xs) =
     (if x = NaN then NaN
      else Math_max_from (if js_less highest x then x else highest) xs)"

definition Math_max :: "jsnum list \<Rightarrow> jsnum" where
  "Math_max xs = Math_max_from NegInf xs"

text \<open>The number that an integer column holds once it is read into the page.\<close>

definition num :: "nat \<Rightarrow> jsnum" where
  "num n = to_double (of_nat n)"

subsection \<open>calculateStats\<close>

text \<open>
  The result has the fields \<open>total\<close>, \<open>avgScore\<close> and \<open>bestScore\<close>; the first is named
  \<open>totalQuizzes\<close> here, after the variable that it is set from.
\<close>

record stats =
  totalQuizzes :: nat
  avgScore :: jsnum
  bestScore :: jsnum

definition calculateStats :: "QuizAttempt list \<Rightarrow> stats" where
  "calculateStats attempts =
     (if length attempts = 0 then \<lparr>totalQuizzes = 0, avgScore = Fin 0, bestScore = Fin 0\<rparr>
      else
        let totalScore = foldl (\<lambda>sum a. js_add sum (num (score a))) (Fin 0) attempts;
            totalQuestions = foldl (\<lambda>sum a. js_add sum (num (total_questions a))) (Fin 0) attempts;
            avg = Math_round (js_mul (js_div totalScore totalQuestions) (Fin 100));
            best = Math_max (map (\<lambda>a. Math_round
                     (js_mul (js_div (num (score a)) (num (total_questions a))) (Fin 100)))
                     attempts)
        in \<lparr>totalQuizzes = length attempts, avgScore = avg, bestScore = best\<rparr>)"

text \<open>
  The percentage of the specification, \<open>round (100 * s / t)\<close>, up to the direction at an
  exact tie: \<open>n\<close> is the rounded value, or one less when \<open>100 * s / t\<close> lies exactly
  halfway between two integers.
\<close>

definition near_percentage :: "int \<Rightarrow> nat \<Rightarrow> nat \<Rightarrow> bool" where
  "near_percentage n s t =
     (let v = 100 * of_nat s / of_nat t :: rat
      in n = round v \<or> frac v = 1 / 2 \<and> n = round v - 1)"


section \<open>The generator function\<close>

text \<open>
  The \<open>generate-quiz\<close> handler. A JSON value is what \<open>JSON.parse\<close> returns. The
  oracle's answer to the one \<open>fetch\<close> is a thrown error, or a status with what reading
  the body gives: \<open>response.text()\<close> on a failure status,
  \<open>response.json()\<close> followed by \<open>.choices[0].message.content\<close> otherwise, and
  \<open>Inl\<close> the message of the error that the reading throws. \<open>JSON.parse\<close> is a
  parameter of the handler, with \<open>Inl\<close> the message of its syntax error. The second
  component of the handler's result is the number of calls of \<open>fetch\<close> it made.
\<close>

datatype json =
  JNull | JBool bool | JNum int | JStr string | JArr "json list" | JObj "(string \<times> json) list"

datatype fetch_result = Fetch_throws string | Fetch_response nat "string + string"

datatype response_body = No_body | Questions json | Error_body string

record http_response =
  status :: nat
  body :: response_body

definition response_ok :: "nat \<Rightarrow> bool" where
  "response_ok st = (200 \<le> st \<and> st \<le> 299)"

function show_nat :: "nat \<Rightarrow> string" where
  "show_nat n = (if n < 10 then [''0123456789'' ! n]
                 else show_nat (n div 10) @ [''0123456789'' ! (n mod 10)])"
  by pat_completeness auto
termination
  by (relation "measure (\<lambda>n. n)") auto

declare show_nat.simps [simp del]

definition newline :: char where
  "newline = CHR 0x0A"

text \<open>
  \<open>text.replace(/pat\n?/g, '')\<close> for a literal \<open>pat\<close>: every match, from left to
  right, is removed together with one newline after it, if there is one.
\<close>

function strip_fence :: "string \<Rightarrow> string \<Rightarrow> string" where
  "strip_fence pat [] = []"
| "strip_fence pat (c # cs) =
     (if pat \<noteq> [] \<and> take (length pat) (c # cs) = pat
      then strip_fence pat (dropWhile (\<lambda>x. x = newline) (take 1 (drop (length pat) (c # cs)))
                            @ drop 1 (drop (length pat) (c # cs)))
      else c # strip_fence pat cs)"
  by pat_completeness auto
termination
proof (relation "measure (\<lambda>(pat, s). length s)")
  fix pat :: string and c cs
  assume "pat \<noteq> [] \<and> take (length pat) (c # cs) = pat"
  then have p: "0 < length pat" by simp
  define r where "r = drop (length pat) (c # cs)"
  have "length (dropWhile (\<lambda>x. x = newline) (take 1 r)) \<le> length (take 1 r)"
    by (rule length_dropWhile_le)
  moreover have "length (take 1 r) + length (drop 1 r) = length r"
    by simp
  ultimately have "length (dropWhile (\<lambda>x. x = newline) (take 1 r) @ drop 1 r) \<le> length r"
    by (simp only: length_append)
  moreover have "length r < length (c # cs)"
    using p by (simp add: r_def)
  ultimately show "((pat, dropWhile (\<lambda>x. x = newline) (take 1 (drop (length pat) (c # cs)))
                @ drop 1 (drop (length pat) (c # cs))), pat, c # cs)
          \<in> measure (\<lambda>(pat, s). length s)"
    by (simp add: r_def del: drop_drop)
qed simp_all

text \<open>
  \<open>trim()\<close>. A character of a string is a code point below 256: the white space among
  them is the six characters of ASCII and the no-break space; the white space beyond
  (U+FEFF, U+2028 and others) has no character here.
\<close>

definition is_space :: "char \<Rightarrow> bool" where
  "is_space c =
     (c \<in> set [CHR 0x09, CHR 0x0A, CHR 0x0B, CHR 0x0C, CHR 0x0D, CHR 0x20, CHR 0xA0])"

definition trim :: "string \<Rightarrow> string" where
  "trim s = rev (dropWhile is_space (rev (dropWhile is_space s)))"

definition clean :: "string \<Rightarrow> string" where
  "clean generatedText = trim (strip_fence ''```'' (strip_fence ''```json'' generatedText))"

definition server_error :: "string \<Rightarrow> http_response" where
  "server_error msg = \<lparr>status = 500, body = Error_body msg\<rparr>"

definition serve ::
  "(string \<Rightarrow> string + json) \<Rightarrow> string option \<Rightarrow> (request_body \<Rightarrow> fetch_result)
     \<Rightarrow> string \<Rightarrow> string + request_body \<Rightarrow> http_response \<times> nat" where
  "serve JSON_parse LOVABLE_API_KEY fetch method payload =
     (if method = ''OPTIONS'' then (\<lparr>status = 200, body = No_body\<rparr>, 0)
      else case payload of
        Inl msg \<Rightarrow> (server_error msg, 0)
      | Inr req \<Rightarrow>
          if LOVABLE_API_KEY = None \<or> LOVABLE_API_KEY = Some []
          then (server_error ''LOVABLE_API_KEY is not configured'', 0)
          else case fetch req of
            Fetch_throws msg \<Rightarrow> (server_error msg, 1)
          | Fetch_response st content \<Rightarrow>
              if \<not> response_ok st then
                (case content of
                   Inl msg \<Rightarrow> (server_error msg, 1)
                 | Inr errorText \<Rightarrow>
                     if st = 429 then
                       (\<lparr>status = 429,
                         body = Error_body ''Rate limit exceeded. Please try again later.''\<rparr>, 1)
                     else if st = 402 then
                       (\<lparr>status = 402,
                         body = Error_body
                           ''Payment required. Please add credits to your workspace.''\<rparr>, 1)
                     else (server_error (''AI Gateway error: '' @ show_nat st), 1))
              else
                (case content of
                   Inl msg \<Rightarrow> (server_error msg, 1)
                 | Inr generatedText \<Rightarrow>
                     (case JSON_parse (clean generatedText) of
                        Inl msg \<Rightarrow> (server_error msg, 1)
                      | Inr qs \<Rightarrow> (\<lparr>status = 200, body = Questions qs\<rparr>, 1))))"


subsection \<open>The generator of the specification\<close>

text \<open>
  What the specification promises of a successful call: an array of exactly the requested
  number of questions, each with non-empty text, exactly the option labels A to D, and a
  correct answer among them.
\<close>

definition labels :: "string list" where
  "labels = [''A'', ''B'', ''C'', ''D'']"

fun spec_valid_question :: "json \<Rightarrow> bool" where
  "spec_valid_question (JObj fs) =
     ((case map_of fs ''question'' of Some (JStr t) \<Rightarrow> t \<noteq> [] | _ \<Rightarrow> False) \<and>
      (case map_of fs ''options'' of
         Some (JObj os) \<Rightarrow> set (map fst os) = set labels \<and> distinct (map fst os)
       | _ \<Rightarrow> False) \<and>
      (case map_of fs ''correct_answer'' of Some (JStr l) \<Rightarrow> l \<in> set labels | _ \<Rightarrow> False))"
| "spec_valid_question _ = False"

definition spec_generated :: "nat \<Rightarrow> json \<Rightarrow> bool" where
  "spec_generated n j =
     (case j of JArr qs \<Rightarrow> length qs = n \<and> list_all spec_valid_question qs | _ \<Rightarrow> False)"


section \<open>Example data\<close>

definition mk_question :: "string \<Rightarrow> string \<Rightarrow> Question" where
  "mk_question txt lbl =
     \<lparr>question = txt,
      options = \<lparr>opt_A = ''one'', opt_B = ''two'', opt_C = ''three'', opt_D = ''four''\<rparr>,
      correct_answer = Text lbl, explanation = ''because''\<rparr>"

definition example_questions :: "Question list" where
  "example_questions = [mk_question ''q0'' ''A'', mk_question ''q1'' ''B'', mk_question ''q2'' ''C'']"

definition example_attempt :: "string \<Rightarrow> string \<Rightarrow> nat \<Rightarrow> nat \<Rightarrow> QuizAttempt" where
  "example_attempt i u s t =
     \<lparr>row_id = i, user_id = u, skill_level = ''Beginner'', subjects = [''Mathematics''],
      question_count = t, score = s, total_questions = t\<rparr>"

definition example_row :: "string \<Rightarrow> QuizQuestion" where
  "example_row i =
     \<lparr>attempt_id = i, question_text = ''q'',
      options_col = \<lparr>opt_A = ''one'', opt_B = ''two'', opt_C = ''three'', opt_D = ''four''\<rparr>,
      correct_answer_col = Some ''A'', user_answer = None, explanation_col = ''because''\<rparr>"

definition example_db :: db where
  "example_db = \<lparr>quiz_attempts = [example_attempt ''a1'' ''u1'' 0 3], quiz_questions = [],
                  update_policy = False, delete_policy = False\<rparr>"

text \<open>Index 0 answered correctly, index 1 not answered, index 2 answered in lower case.\<close>

definition example_quiz :: Quiz where
  "example_quiz = \<lparr>questions = example_questions, loading = False, currentQuestion = 0,
                    answers = [0 \<mapsto> ''A'', 2 \<mapsto> ''c''], attemptId = ''a1''\<rparr>"

definition example_submit_env :: submit_env where
  "example_submit_env =
     \<lparr>caller = Some ''u1'', insert_call = (\<lambda>i. Reaches), update_call = Reaches\<rparr>"

definition example_gen_env :: gen_env where
  "example_gen_env =
     \<lparr>invoke = (\<lambda>r. Invoke_data (Some example_questions)), session_user = Some ''u1'',
      attempt_insert = Reaches, new_id = ''a2''\<rparr>"

definition failing_gen_env :: gen_env where
  "failing_gen_env =
     \<lparr>invoke = (\<lambda>r. Invoke_error ''Edge Function returned a non-2xx status code''),
      session_user = Some ''u1'', attempt_insert = Reaches, new_id = ''a2''\<rparr>"

definition history_db :: db where
  "history_db =
     \<lparr>quiz_attempts = [example_attempt ''a1'' ''u1'' 3 5, example_attempt ''b1'' ''u2'' 1 5,
        example_attempt ''a2'' ''u1'' 0 5, example_attempt ''a3'' ''u1'' 5 5,
        example_attempt ''a4'' ''u1'' 2 10],
      quiz_questions = [example_row ''a1'', example_row ''a1'', example_row ''b1'',
        example_row ''a3'', example_row ''a4''],
      update_policy = False, delete_policy = False\<rparr>"

definition example_clear_env :: clear_env where
  "example_clear_env = \<lparr>session = Some ''u1'', delete_call = Reaches\<rparr>"

text \<open>The page and the store after a successful load, and a run of the user's actions.\<close>

definition loaded_quiz :: Quiz where
  "loaded_quiz = \<lparr>questions = example_questions, loading = False, currentQuestion = 0,
                   answers = Map.empty, attemptId = ''a2''\<rparr>"

definition loaded_db :: db where
  "loaded_db = \<lparr>quiz_attempts = [example_attempt ''a1'' ''u1'' 0 3,
                    example_attempt ''a2'' ''u1'' 0 3], quiz_questions = [],
                 update_policy = False, delete_policy = False\<rparr>"

definition example_actions :: "action list" where
  "example_actions = [Answer ''A'', Next, Next, Answer ''c'', Next]"

text \<open>The history in a store that has a delete policy, after the owner's delete.\<close>

definition cleared_db :: db where
  "cleared_db = \<lparr>quiz_attempts = [example_attempt ''b1'' ''u2'' 1 5],
                  quiz_questions = [example_row ''b1''],
                  update_policy = False, delete_policy = True\<rparr>"



text \<open>
  \<open>JSON.parse\<close> on the texts used below: an empty array, an array of one empty object,
  and a text that is not JSON (with a stand-in for the message of its syntax error).
\<close>

definition example_parse :: "string \<Rightarrow> string + json" where
  "example_parse s =
     (if s = ''[]'' then Inr (JArr [])
      else if s = ''[{}]'' then Inr (JArr [JObj []])
      else Inl ''Unexpected token'')"

definition example_request :: "nat \<Rightarrow> request_body" where
  "example_request n = \<lparr>subject = ''Mathematics'', skillLevel = ''Intermediate'', questionCount = n\<rparr>"

definition fenced :: string where
  "fenced = ''```json'' @ [newline] @ ''[{}]'' @ [newline] @ ''```''"


text \<open>A generator that answers with an empty array of questions.\<close>

definition empty_gen_env :: gen_env where
  "empty_gen_env =
     \<lparr>invoke = (\<lambda>r. Invoke_data (Some [])), session_user = Some ''u1'',
      attempt_insert = Reaches, new_id = ''a2''\<rparr>"


section \<open>Properties of the quiz page\<close>

subsection \<open>The loop of handleSubmit\<close>






lemma insert_question_attempts:
  "insert_question c row d = Inr d' \<Longrightarrow> quiz_attempts d' = quiz_attempts d"
  by (auto simp: insert_question_def split: if_splits option.splits)

text \<open>One turn of the loop: whatever the insert does, the attempts table is untouched.\<close>

lemma submit_loop_step:
  "\<exists>d1. quiz_attempts d1 = quiz_attempts d \<and>
     submit_loop env st (q # qs) i sc d =
       (case insert_call env i of Rejects msg \<Rightarrow> Inl (msg, d)
        | _ \<Rightarrow> submit_loop env st qs (Suc i)
            (if strict_eq (answers st i) (correct_answer q) then Suc sc else sc) d1)"
proof (cases "insert_call env i")
  case Reaches
  show ?thesis
  proof (cases "insert_question (caller env)
              \<lparr>attempt_id = attemptId st, question_text = question q,
               options_col = options q, correct_answer_col = text_column (correct_answer q),
               user_answer = or_null (answers st i), explanation_col = explanation q\<rparr> d")
    case (Inl a)
    with Reaches show ?thesis by (intro exI[of _ d]) (simp add: Let_def)
  next
    case (Inr d')
    with Reaches show ?thesis
      by (intro exI[of _ d']) (simp add: Let_def insert_question_attempts)
  qed
next
  case (Resolves_error m)
  then show ?thesis by (intro exI[of _ d]) (simp add: Let_def)
next
  case (Rejects m)
  then show ?thesis by (intro exI[of _ d]) (simp add: Let_def)
qed


lemma submit_loop_bound:
  "submit_loop env st qs i sc d = Inr (sc', d') \<Longrightarrow>
     sc' \<le> sc + length qs \<and> quiz_attempts d' = quiz_attempts d"
proof (induction qs arbitrary: i sc d)
  case Nil
  then show ?case by simp
next
  case (Cons q qs)
  let ?sc = "if strict_eq (answers st i) (correct_answer q) then Suc sc else sc"
  obtain d1 where d1: "quiz_attempts d1 = quiz_attempts d"
    and step: "submit_loop env st (q # qs) i sc d =
       (case insert_call env i of Rejects msg \<Rightarrow> Inl (msg, d)
        | _ \<Rightarrow> submit_loop env st qs (Suc i) ?sc d1)"
    using submit_loop_step[of d env st q qs i sc] by blast
  have "submit_loop env st qs (Suc i) ?sc d1 = Inr (sc', d')"
    using step Cons.prems by (cases "insert_call env i") auto
  from Cons.IH[OF this] d1 show ?case by (auto split: if_splits)
qed

lemma submit_loop_rejected:
  "submit_loop env st qs i sc d = Inl (msg, d') \<Longrightarrow> quiz_attempts d' = quiz_attempts d"
proof (induction qs arbitrary: i sc d)
  case Nil
  then show ?case by simp
next
  case (Cons q qs)
  let ?sc = "if strict_eq (answers st i) (correct_answer q) then Suc sc else sc"
  obtain d1 where d1: "quiz_attempts d1 = quiz_attempts d"
    and step: "submit_loop env st (q # qs) i sc d =
       (case insert_call env i of Rejects msg \<Rightarrow> Inl (msg, d)
        | _ \<Rightarrow> submit_loop env st qs (Suc i) ?sc d1)"
    using submit_loop_step[of d env st q qs i sc] by blast
  show ?case
  proof (cases "insert_call env i")
    case (Rejects m)
    then show ?thesis using step Cons.prems by simp
  next
    case Reaches
    then have "submit_loop env st qs (Suc i) ?sc d1 = Inl (msg, d')"
      using step Cons.prems by simp
    from Cons.IH[OF this] d1 show ?thesis by simp
  next
    case (Resolves_error m)
    then have "submit_loop env st qs (Suc i) ?sc d1 = Inl (msg, d')"
      using step Cons.prems by simp
    from Cons.IH[OF this] d1 show ?thesis by simp
  qed
qed




subsection \<open>The cursor and the answers\<close>

text \<open>
  C8. Moving back at index 0 and moving on at the last index change nothing; the cursor
  stays below the number of questions under every handler; recording an answer sets the
  answer at the cursor and leaves the answers at every other index, and the cursor, as
  they were; moving the cursor leaves the answers as they were.
\<close>

theorem cursor_and_answers:
  "(currentQuestion st = 0 \<longrightarrow> handlePrevious st = st) \<and>
   (Suc (currentQuestion st) = length (questions st) \<longrightarrow> handleNext st = st) \<and>
   (currentQuestion st < length (questions st) \<longrightarrow>
      currentQuestion (handleNext st) < length (questions (handleNext st)) \<and>
      currentQuestion (handlePrevious st) < length (questions (handlePrevious st)) \<and>
      currentQuestion (handleAnswer v st) < length (questions (handleAnswer v st))) \<and>
   answers (handleAnswer v st) (currentQuestion st) = Some v \<and>
   (\<forall>i. i \<noteq> currentQuestion st \<longrightarrow> answers (handleAnswer v st) i = answers st i) \<and>
   currentQuestion (handleAnswer v st) = currentQuestion st \<and>
   answers (handleNext st) = answers st \<and> answers (handlePrevious st) = answers st"
  by (auto simp add: handlePrevious_def handleNext_def handleAnswer_def)

theorem cursor_and_answers_witness:
  "handlePrevious example_quiz = example_quiz \<and>
   handleNext (example_quiz\<lparr>currentQuestion := 2\<rparr>) = example_quiz\<lparr>currentQuestion := 2\<rparr> \<and>
   currentQuestion (handleNext example_quiz) = 1 \<and>
   answers (handleAnswer ''B'' example_quiz) 0 = Some ''B'' \<and>
   answers (handleAnswer ''B'' example_quiz) 2 = Some ''c'' \<and>
   answers (handleAnswer ''B'' example_quiz) 1 = None"
proof -
  have c: "currentQuestion example_quiz = 0"
    "Suc (currentQuestion (example_quiz\<lparr>currentQuestion := 2\<rparr>)) =
       length (questions (example_quiz\<lparr>currentQuestion := 2\<rparr>))"
    by (simp_all add: example_quiz_def example_questions_def)
  have a: "answers example_quiz 2 = Some ''c''" "answers example_quiz 1 = None"
    by (simp_all add: example_quiz_def)
  have n: "currentQuestion (handleNext example_quiz) = 1"
    by (simp add: handleNext_def example_quiz_def example_questions_def)
  from cursor_and_answers[of example_quiz "''B''"]
    cursor_and_answers[of "example_quiz\<lparr>currentQuestion := 2\<rparr>" "''B''"] c a n
  show ?thesis by simp
qed

subsection \<open>Failure of the generation\<close>

lemma join_single: "(if length subjs = 1 then subjs ! 0 else join subjs) = join subjs"
  by (cases subjs rule: join.cases) auto

text \<open>
  C5. When the invocation of the generator ends with an error, whatever the error,
  \<open>generateQuiz\<close> shows the error's message (or the default message when it has none),
  navigates back to the dashboard, and leaves the store as it was: no attempt is created.
\<close>

theorem generation_failure:
  assumes "invoke env \<lparr>subject = join subjs, skillLevel = skill, questionCount = cnt\<rparr>
             = Invoke_error msg"
  shows "generateQuiz skill subjs cnt env (st, d) =
           (st\<lparr>loading := False\<rparr>, d,
            [Toast_error (message_or msg ''Failed to generate quiz. Please try again.''),
             Navigate ''/dashboard'' None])"
  using assms unfolding generateQuiz_def join_single by (simp add: generate_failed_def)

theorem generation_failure_witness:
  "generateQuiz ''Intermediate'' [''Mathematics''] 5 failing_gen_env (Quiz_init, example_db) =
     (Quiz_init\<lparr>loading := False\<rparr>, example_db,
      [Toast_error ''Edge Function returned a non-2xx status code'',
       Navigate ''/dashboard'' None])"
proof -
  have "invoke failing_gen_env
          \<lparr>subject = join [''Mathematics''], skillLevel = ''Intermediate'', questionCount = 5\<rparr>
        = Invoke_error ''Edge Function returned a non-2xx status code''"
    by (simp add: failing_gen_env_def)
  from generation_failure[OF this, of Quiz_init example_db] show ?thesis
    by (simp add: message_or_def)
qed

subsection \<open>The score stays within the number of questions\<close>

lemma generateQuiz_cases:
  assumes "generateQuiz skill subjs cnt env (Quiz_init, d) = (st, d1, effs)"
  shows "(d1 = d \<and> attemptId st = []) \<or>
         (\<exists>u. session_user env = Some u \<and> create_attempt u
            \<lparr>row_id = new_id env, user_id = u, skill_level = skill,
             subjects = subjs, question_count = cnt, score = 0,
             total_questions = length (questions st)\<rparr> d = Inr d1 \<and>
            attemptId st = new_id env \<and> effs = [])"
  using assms unfolding generateQuiz_def join_single
  by (auto simp: Let_def Quiz_init_def generate_failed_def
      split: invoke_result.splits option.splits call_outcome.splits sum.splits)

lemma create_attempt_inv:
  assumes "create_attempt u row d = Inr d1" "ids_valid d" "score_invariant d"
    and "score row \<le> total_questions row"
  shows "ids_valid d1 \<and> score_invariant d1 \<and> row \<in> set (quiz_attempts d1) \<and>
         list_all (\<lambda>a. row_id a \<noteq> row_id row \<or> total_questions a = total_questions row)
           (quiz_attempts d1)"
  using assms
  by (auto simp: create_attempt_def ids_valid_def score_invariant_def list_all_iff
      image_iff split: if_splits) metis

lemma generateQuiz_inv:
  assumes "ids_valid d" "score_invariant d"
    and "generateQuiz skill subjs cnt env (Quiz_init, d) = (st, d1, effs)"
  shows "ids_valid d1 \<and> score_invariant d1 \<and> linked st d1 \<and>
         (attemptId st = [] \<or>
          \<lparr>row_id = attemptId st, user_id = the (session_user env), skill_level = skill,
           subjects = subjs, question_count = cnt, score = 0,
           total_questions = length (questions st)\<rparr> \<in> set (quiz_attempts d1))"
proof -
  have none: "linked s d" if "attemptId s = []" for s
    using assms(1) that by (auto simp: linked_def ids_valid_def list_all_iff valid_uuid_def)
  from generateQuiz_cases[OF assms(3)] show ?thesis
  proof (elim disjE exE conjE)
    fix u
    assume c: "create_attempt u
            \<lparr>row_id = new_id env, user_id = u, skill_level = skill,
             subjects = subjs, question_count = cnt, score = 0,
             total_questions = length (questions st)\<rparr> d = Inr d1"
      and a: "attemptId st = new_id env" and u: "session_user env = Some u"
    from create_attempt_inv[OF c assms(1,2)] a u show ?thesis
      by (simp add: linked_def)
  qed (use assms none in auto)
qed

lemma act_keeps: "questions (act a st) = questions st \<and> attemptId (act a st) = attemptId st"
  by (cases a) (auto simp: handleAnswer_def handleNext_def handlePrevious_def)

lemma run_actions_keeps:
  "questions (run_actions acts st) = questions st \<and>
   attemptId (run_actions acts st) = attemptId st"
  unfolding run_actions_def
  by (induction acts arbitrary: st) (simp_all add: act_keeps)

lemma handleSubmit_inv:
  assumes "ids_valid d" "score_invariant d" "linked st d"
  shows "ids_valid (fst (handleSubmit env (st, d))) \<and>
         score_invariant (fst (handleSubmit env (st, d)))"
proof (cases "submit_loop env st (questions st) 0 0 d")
  case (Inl p)
  obtain msg d1 where p: "p = (msg, d1)" by (cases p)
  have "quiz_attempts d1 = quiz_attempts d"
    using submit_loop_rejected[of env st "questions st" 0 0 d msg d1] Inl p by simp
  then show ?thesis
    using assms Inl p by (simp add: handleSubmit_def ids_valid_def score_invariant_def)
next
  case (Inr p)
  obtain sc d1 where p: "p = (sc, d1)" by (cases p)
  have b: "sc \<le> length (questions st)" and a: "quiz_attempts d1 = quiz_attempts d"
    using submit_loop_bound[of env st "questions st" 0 0 d sc d1] Inr p by auto
  have inv1: "ids_valid d1" "score_invariant d1" "linked st d1"
    using assms a by (simp_all add: ids_valid_def score_invariant_def linked_def)
  have upd: "ids_valid d2 \<and> score_invariant d2"
    if "update_attempt_score (caller env) (attemptId st) sc d1 = Inr d2" for d2
    using that inv1 b
    by (auto simp: update_attempt_score_def ids_valid_def score_invariant_def linked_def
        list_all_iff split: if_splits)
  show ?thesis
    using Inr p inv1 upd
    by (auto simp: handleSubmit_def split: call_outcome.splits sum.splits)
qed

lemma generate_example:
  "generateQuiz ''Beginner'' [''Mathematics''] 3 example_gen_env (Quiz_init, example_db) =
     (loaded_quiz, loaded_db, [])"
  by (simp add: generateQuiz_def example_gen_env_def Quiz_init_def example_db_def
      create_attempt_def valid_uuid_def example_attempt_def skill_levels_def
      loaded_quiz_def loaded_db_def example_questions_def)

lemma run_example:
  "run_actions example_actions loaded_quiz =
     loaded_quiz\<lparr>currentQuestion := 2, answers := [0 \<mapsto> ''A'', 2 \<mapsto> ''c'']\<rparr>"
  by (simp add: run_actions_def example_actions_def loaded_quiz_def handleAnswer_def
      handleNext_def example_questions_def numeral_2_eq_2)

lemma submit_example:
  "map score (quiz_attempts (fst (handleSubmit example_submit_env
      (run_actions example_actions loaded_quiz, loaded_db)))) = [0, 0] \<and>
   map score (quiz_attempts (fst (handleSubmit example_submit_env
      (run_actions example_actions loaded_quiz, loaded_db\<lparr>update_policy := True\<rparr>)))) = [0, 1]"
  unfolding run_example
  by (simp add: Let_def handleSubmit_def loaded_quiz_def loaded_db_def example_submit_env_def
      example_questions_def mk_question_def insert_question_def valid_uuid_def
      example_attempt_def owns_def or_null_def update_attempt_score_def strict_eq_def
      text_column_def)

text \<open>
  C7. In a store whose attempts all have a score within their number of questions, a
  quiz that is loaded, answered in any way and submitted, with any outcome of the store
  calls, leaves every attempt with a score within its number of questions. The attempt
  is created with score 0 and with the number of generated questions, and a score that
  the submission computes never exceeds that number.
\<close>

theorem score_within_total:
  assumes "ids_valid d" and "score_invariant d"
    and "generateQuiz skill subjs cnt genv (Quiz_init, d) = (st, d1, effs)"
  shows "score_invariant d1 \<and>
         score_invariant (fst (handleSubmit senv (run_actions acts st, d1))) \<and>
         (attemptId st = [] \<or>
          \<lparr>row_id = attemptId st, user_id = the (session_user genv), skill_level = skill,
           subjects = subjs, question_count = cnt, score = 0,
           total_questions = length (questions st)\<rparr> \<in> set (quiz_attempts d1)) \<and>
         (\<forall>sc d2. submit_loop senv (run_actions acts st) (questions st) 0 0 d1 = Inr (sc, d2)
            \<longrightarrow> sc \<le> length (questions st))"
proof -
  from generateQuiz_inv[OF assms]
  have i: "ids_valid d1" "score_invariant d1" "linked st d1"
    and r: "attemptId st = [] \<or>
          \<lparr>row_id = attemptId st, user_id = the (session_user genv), skill_level = skill,
           subjects = subjs, question_count = cnt, score = 0,
           total_questions = length (questions st)\<rparr> \<in> set (quiz_attempts d1)"
    by auto
  have "linked (run_actions acts st) d1"
    using i(3) by (simp add: linked_def run_actions_keeps)
  from handleSubmit_inv[OF i(1,2) this]
  have s: "score_invariant (fst (handleSubmit senv (run_actions acts st, d1)))" by simp
  have b: "sc \<le> length (questions st)"
    if "submit_loop senv (run_actions acts st) (questions st) 0 0 d1 = Inr (sc, d2)" for sc d2
    using submit_loop_bound[OF that] by simp
  from i(2) s r b show ?thesis by blast
qed

theorem score_within_total_witness:
  "score_invariant loaded_db \<and>
   score_invariant (fst (handleSubmit example_submit_env
      (run_actions example_actions loaded_quiz, loaded_db))) \<and>
   map score (quiz_attempts (fst (handleSubmit example_submit_env
      (run_actions example_actions loaded_quiz, loaded_db)))) = [0, 0] \<and>
   map score (quiz_attempts (fst (handleSubmit example_submit_env
      (run_actions example_actions loaded_quiz, loaded_db\<lparr>update_policy := True\<rparr>)))) = [0, 1] \<and>
   map total_questions (quiz_attempts loaded_db) = [3, 3]"
proof -
  have iv: "ids_valid example_db" and sv: "score_invariant example_db"
    by (simp_all add: ids_valid_def score_invariant_def example_db_def example_attempt_def
        valid_uuid_def)
  have t: "map total_questions (quiz_attempts loaded_db) = [3, 3]"
    by (simp add: loaded_db_def example_attempt_def)
  from score_within_total[OF iv sv generate_example, of example_submit_env example_actions]
    submit_example t
  show ?thesis by simp
qed

subsection \<open>Failures of the store while submitting\<close>

text \<open>
  C4, evaluated. All three inserts resolve with an error: \<open>handleSubmit\<close> shows nothing
  and navigates to the results page, and no question row is stored; this is so in the
  store that the migration declares, where the update changes no row, and in a store with
  an update policy, where the score is written. In contrast, a score update that resolves
  with an error gives the toast about the score and no navigation, and a rejected insert
  gives the toast about the submission and no navigation.
\<close>

theorem handleSubmit_insert_error_swallowed:
  "handleSubmit
     \<lparr>caller = Some ''u1'', insert_call = (\<lambda>i. Resolves_error ''Failed to fetch''),
      update_call = Reaches\<rparr> (example_quiz, example_db) =
   (example_db, [Navigate ''/results'' (Some (''a1'', 1, 3))]) \<and>
   handleSubmit
     \<lparr>caller = Some ''u1'', insert_call = (\<lambda>i. Resolves_error ''Failed to fetch''),
      update_call = Reaches\<rparr> (example_quiz, example_db\<lparr>update_policy := True\<rparr>) =
   (\<lparr>quiz_attempts = [example_attempt ''a1'' ''u1'' 1 3], quiz_questions = [],
     update_policy = True, delete_policy = False\<rparr>,
    [Navigate ''/results'' (Some (''a1'', 1, 3))]) \<and>
   snd (handleSubmit
     \<lparr>caller = Some ''u1'', insert_call = (\<lambda>i. Reaches),
      update_call = Resolves_error ''Failed to fetch''\<rparr> (example_quiz, example_db)) =
    [Toast_error ''Failed to save score. Please try again.''] \<and>
   snd (handleSubmit
     \<lparr>caller = Some ''u1'', insert_call = (\<lambda>i. Rejects ''Failed to fetch''),
      update_call = Reaches\<rparr> (example_quiz, example_db)) =
    [Toast_error ''Failed to submit quiz. Please try again.'']"
  by (simp add: Let_def handleSubmit_def example_quiz_def example_db_def
      example_questions_def mk_question_def valid_uuid_def insert_question_def owns_def
      or_null_def example_attempt_def update_attempt_score_def strict_eq_def
      text_column_def)

section \<open>Properties of the performance page\<close>

subsection \<open>Clearing the history\<close>

text \<open>
  With a delete policy in the store, the delete removes the owner's attempts and the
  cascade their questions: afterwards the store lists no attempt of that user, and no
  question of any attempt the user had; the attempts of every other user are listed as
  before.
\<close>

lemma clearHistory_with_policy:
  assumes "delete_policy d" and "session env = Some u" and "delete_call env = Reaches"
    and "clearHistory env (atts, d) = (atts', d', effs)"
  shows "atts' = [] \<and> list_attempts u d' = [] \<and>
         (\<forall>a \<in> set (list_attempts u d). list_questions (row_id a) d' = []) \<and>
         (\<forall>v. v \<noteq> u \<longrightarrow> list_attempts v d' = list_attempts v d)"
proof -
  have d': "d' = delete_attempts u d" and "atts' = []"
    using assms by (auto simp: clearHistory_def)
  have 1: "list_attempts u d' = []"
    using assms(1) by (simp add: d' list_attempts_def delete_attempts_def)
  have 2: "list_questions (row_id a) d' = []" if "a \<in> set (list_attempts u d)" for a
  proof -
    have "row_id a \<in> set (map row_id (filter (\<lambda>a. user_id a = u) (quiz_attempts d)))"
      using that by (auto simp: list_attempts_def)
    then show ?thesis
      using assms(1)
      by (auto simp add: d' list_questions_def delete_attempts_def Let_def filter_empty_conv)
  qed
  have 3: "list_attempts v d' = list_attempts v d" if "v \<noteq> u" for v
    using that assms(1)
    by (auto simp: d' list_attempts_def delete_attempts_def Let_def intro: filter_cong)
  from 1 2 3 \<open>atts' = []\<close> show ?thesis by blast
qed

text \<open>
  C9, evaluated. A user with four attempts and their questions, logged in, clears the
  history, and the delete goes through without an error. In the store that the migration
  declares, \<open>quiz_attempts\<close> has no delete policy: the store is as before, with the four
  attempts and their questions, while the page toasts success and empties its list. In a
  store with a delete policy the same call removes them.
\<close>

theorem clearHistory_deletes_nothing:
  "clearHistory example_clear_env (list_attempts ''u1'' history_db, history_db) =
     ([], history_db, [Toast_success ''Performance history cleared successfully'']) \<and>
   map row_id (list_attempts ''u1'' history_db) = [''a4'', ''a3'', ''a2'', ''a1''] \<and>
   length (list_questions ''a1'' history_db) = 2 \<and>
   clearHistory example_clear_env
     (list_attempts ''u1'' history_db, history_db\<lparr>delete_policy := True\<rparr>) =
     ([], cleared_db, [Toast_success ''Performance history cleared successfully'']) \<and>
   list_attempts ''u1'' cleared_db = []"
  by (simp add: clearHistory_def example_clear_env_def history_db_def delete_attempts_def
      example_attempt_def example_row_def image_iff cleared_db_def list_attempts_def
      list_questions_def)

section \<open>Properties of the generator function\<close>

lemma clean_fenced: "clean fenced = ''[{}]''"
  by code_simp

lemma clean_plain: "clean ''[]'' = ''[]''"
  by code_simp

text \<open>
  C3, as the code has it. A call succeeds (status 200) with the questions \<open>j\<close> exactly
  when the key is configured, the oracle answers with a success status and a readable
  content, and \<open>JSON.parse\<close> of the cleaned content is \<open>j\<close>; \<open>j\<close> is returned as
  parsed, whatever its length and the shape of its elements.
\<close>

theorem serve_success:
  assumes "method \<noteq> ''OPTIONS''"
  shows "fst (serve JSON_parse key fetch method (Inr req)) = \<lparr>status = 200, body = Questions j\<rparr>
     \<longleftrightarrow> (key \<noteq> None \<and> key \<noteq> Some [] \<and>
          (\<exists>st text. fetch req = Fetch_response st (Inr text) \<and> response_ok st \<and>
             JSON_parse (clean text) = Inr j))"
  using assms
  by (auto simp: serve_def server_error_def response_ok_def
      split: fetch_result.splits sum.splits)

theorem serve_success_witness:
  "fst (serve example_parse (Some ''key'') (\<lambda>r. Fetch_response 200 (Inr fenced)) ''POST''
         (Inr (example_request 1))) = \<lparr>status = 200, body = Questions (JArr [JObj []])\<rparr>"
proof -
  have "example_parse (clean fenced) = Inr (JArr [JObj []])"
    by (simp add: clean_fenced example_parse_def)
  then show ?thesis
    using serve_success[of "''POST''" example_parse "Some ''key''"
        "\<lambda>r. Fetch_response 200 (Inr fenced)" "example_request 1" "JArr [JObj []]"]
    by (simp add: response_ok_def)
qed

text \<open>
  The handler does not validate: asked for five questions it returns an empty array, and
  asked for one it returns an object without text, options or correct answer, both with
  status 200.
\<close>

theorem serve_unvalidated:
  "fst (serve example_parse (Some ''key'') (\<lambda>r. Fetch_response 200 (Inr ''[]'')) ''POST''
         (Inr (example_request 5))) = \<lparr>status = 200, body = Questions (JArr [])\<rparr> \<and>
   \<not> spec_generated 5 (JArr []) \<and>
   fst (serve example_parse (Some ''key'') (\<lambda>r. Fetch_response 200 (Inr ''[{}]'')) ''POST''
         (Inr (example_request 1))) = \<lparr>status = 200, body = Questions (JArr [JObj []])\<rparr> \<and>
   \<not> spec_generated 1 (JArr [JObj []])"
proof -
  have "clean ''[{}]'' = ''[{}]''" by code_simp
  then show ?thesis
    by (simp add: serve_def clean_plain example_parse_def response_ok_def spec_generated_def)
qed

text \<open>
  C6. Without a key the handler answers 500 with the message that the key is not
  configured, and calls nothing. With a key, a failure status of the oracle gives 429
  with the rate-limit message for 429, 402 with the payment message for 402, and 500
  with the gateway message for every other status; a content that does not parse, an
  unreadable body and a failed fetch give 500 with the message of the error. The handler
  calls \<open>fetch\<close> at most once.
\<close>

theorem serve_errors:
  assumes "method \<noteq> ''OPTIONS''"
  shows "((key = None \<or> key = Some []) \<longrightarrow>
            serve JSON_parse key fetch method (Inr req) =
              (server_error ''LOVABLE_API_KEY is not configured'', 0)) \<and>
         (key \<noteq> None \<and> key \<noteq> Some [] \<longrightarrow>
            (\<forall>st txt. fetch req = Fetch_response st (Inr txt) \<and> \<not> response_ok st \<longrightarrow>
               serve JSON_parse key fetch method (Inr req) =
                 (if st = 429 then
                    \<lparr>status = 429,
                     body = Error_body ''Rate limit exceeded. Please try again later.''\<rparr>
                  else if st = 402 then
                    \<lparr>status = 402,
                     body = Error_body ''Payment required. Please add credits to your workspace.''\<rparr>
                  else server_error (''AI Gateway error: '' @ show_nat st), 1)) \<and>
            (\<forall>st txt msg. fetch req = Fetch_response st (Inr txt) \<and> response_ok st \<and>
                 JSON_parse (clean txt) = Inl msg \<longrightarrow>
               serve JSON_parse key fetch method (Inr req) = (server_error msg, 1)) \<and>
            (\<forall>st msg. fetch req = Fetch_response st (Inl msg) \<longrightarrow>
               serve JSON_parse key fetch method (Inr req) = (server_error msg, 1)) \<and>
            (\<forall>msg. fetch req = Fetch_throws msg \<longrightarrow>
               serve JSON_parse key fetch method (Inr req) = (server_error msg, 1))) \<and>
         snd (serve JSON_parse key fetch method payload) \<le> 1"
  using assms
  by (auto simp: serve_def split: fetch_result.splits sum.splits)

theorem serve_errors_witness:
  "serve example_parse None (\<lambda>r. Fetch_response 200 (Inr ''[]'')) ''POST''
     (Inr (example_request 5)) = (server_error ''LOVABLE_API_KEY is not configured'', 0) \<and>
   serve example_parse (Some ''key'') (\<lambda>r. Fetch_response 429 (Inr ''quota'')) ''POST''
     (Inr (example_request 5)) =
     (\<lparr>status = 429, body = Error_body ''Rate limit exceeded. Please try again later.''\<rparr>, 1) \<and>
   serve example_parse (Some ''key'') (\<lambda>r. Fetch_response 402 (Inr ''billing'')) ''POST''
     (Inr (example_request 5)) =
     (\<lparr>status = 402,
       body = Error_body ''Payment required. Please add credits to your workspace.''\<rparr>, 1) \<and>
   serve example_parse (Some ''key'') (\<lambda>r. Fetch_response 503 (Inr ''down'')) ''POST''
     (Inr (example_request 5)) =
     (\<lparr>status = 500, body = Error_body ''AI Gateway error: 503''\<rparr>, 1) \<and>
   serve example_parse (Some ''key'') (\<lambda>r. Fetch_response 200 (Inr ''Sorry, no.'')) ''POST''
     (Inr (example_request 5)) =
     (\<lparr>status = 500, body = Error_body ''Unexpected token''\<rparr>, 1)"
proof -
  have m: "''POST'' \<noteq> ''OPTIONS''" by simp
  have n: "show_nat 503 = ''503''" by code_simp
  have c: "clean ''Sorry, no.'' = ''Sorry, no.''" by code_simp
  have p: "example_parse ''Sorry, no.'' = Inl ''Unexpected token''"
    by (simp add: example_parse_def)
  from serve_errors[OF m, of None example_parse "\<lambda>r. Fetch_response 200 (Inr ''[]'')"
      "example_request 5" "Inr (example_request 5)"]
    serve_errors[OF m, of "Some ''key''" example_parse "\<lambda>r. Fetch_response 429 (Inr ''quota'')"
      "example_request 5" "Inr (example_request 5)"]
    serve_errors[OF m, of "Some ''key''" example_parse "\<lambda>r. Fetch_response 402 (Inr ''billing'')"
      "example_request 5" "Inr (example_request 5)"]
    serve_errors[OF m, of "Some ''key''" example_parse "\<lambda>r. Fetch_response 503 (Inr ''down'')"
      "example_request 5" "Inr (example_request 5)"]
    serve_errors[OF m, of "Some ''key''" example_parse "\<lambda>r. Fetch_response 200 (Inr ''Sorry, no.'')"
      "example_request 5" "Inr (example_request 5)"]
  show ?thesis
    by (simp add: response_ok_def n c p server_error_def)
qed

section \<open>Properties of the performance statistics\<close>

subsection \<open>Powers of two and the exponent\<close>

lemma pow2_pos [simp]: "0 < pow2 e"
  by (simp add: pow2_def)

lemma pow2_nonneg [simp]: "0 \<le> pow2 e"
  by (simp add: pow2_def)

lemma pow2_add: "pow2 (a + b) = pow2 a * pow2 b"
  by (simp add: pow2_def power_int_add)

lemma pow2_nat: "0 \<le> e \<Longrightarrow> pow2 e = 2 ^ nat e"
  by (simp add: pow2_def power_int_def)

lemma pow2_neg: "pow2 (- e) = 1 / pow2 e"
  by (simp add: pow2_def power_int_minus divide_inverse)

lemma pow2_mono: "a \<le> b \<Longrightarrow> pow2 a \<le> pow2 b"
  by (simp add: pow2_def power_int_increasing)

lemma pow2_strict_mono: "a < b \<Longrightarrow> pow2 a < pow2 b"
  by (simp add: pow2_def power_int_strict_increasing)

lemma pow2_le_iff: "pow2 a \<le> pow2 b \<longleftrightarrow> a \<le> b"
  using pow2_mono[of a b] pow2_strict_mono[of b a] by (auto simp: not_le[symmetric])

lemma pow2_less_iff: "pow2 a < pow2 b \<longleftrightarrow> a < b"
  using pow2_mono[of b a] pow2_strict_mono[of a b] by (auto simp: not_less[symmetric])

lemma pow2_1: "pow2 1 = 2" and pow2_0: "pow2 0 = 1"
  by (simp_all add: pow2_def)

lemma pow2_Suc: "pow2 (e + 1) = 2 * pow2 e"
  by (simp add: pow2_add pow2_1)

lemma ilog2_bounds:
  assumes "0 < x"
  shows "pow2 (ilog2 x) \<le> x \<and> x < pow2 (ilog2 x + 1)"
proof (cases "1 \<le> x")
  case True
  define n where "n = \<lfloor>x\<rfloor>"
  have n: "0 < n" using True by (simp add: n_def)
  from bitlen_bounds[OF n]
  have lo: "2 ^ nat (bitlen n - 1) \<le> n" and hi: "n < 2 ^ nat (bitlen n)" by auto
  have b1: "1 \<le> bitlen n"
    using n bitlen_eq_zero_iff[of n] bitlen_nonneg[of n] by linarith
  have "pow2 (bitlen n - 1) = of_int (2 ^ nat (bitlen n - 1))"
    using b1 by (simp add: pow2_nat)
  also have "\<dots> \<le> of_int n" using lo by (simp only: of_int_le_iff)
  also have "\<dots> \<le> x" by (simp add: n_def)
  finally have 1: "pow2 (bitlen n - 1) \<le> x" .
  have "n + 1 \<le> 2 ^ nat (bitlen n)" using hi by simp
  then have "(of_int (n + 1) :: rat) \<le> of_int (2 ^ nat (bitlen n))"
    by (simp only: of_int_le_iff)
  moreover have "x < of_int (n + 1)" unfolding n_def by linarith
  moreover have "pow2 (bitlen n) = of_int (2 ^ nat (bitlen n))"
    using b1 by (simp add: pow2_nat)
  ultimately have 2: "x < pow2 (bitlen n)" by simp
  from 1 2 True show ?thesis by (simp add: ilog2_def n_def)
next
  case False
  define y where "y = 1 / x"
  define m where "m = \<lceil>y\<rceil>"
  have x1: "x < 1" using False by simp
  have y1: "1 < y" using assms x1 by (simp add: y_def)
  have m2: "2 \<le> m" using y1 unfolding m_def by linarith
  have xy: "x = 1 / y" by (simp add: y_def)
  define k where "k = bitlen (m - 1)"
  have m1: "0 < m - 1" using m2 by simp
  from bitlen_bounds[OF m1]
  have lo: "2 ^ nat (k - 1) \<le> m - 1" and hi: "m - 1 < 2 ^ nat k" by (auto simp: k_def)
  have k1: "1 \<le> k"
    using m1 bitlen_eq_zero_iff[of "m - 1"] bitlen_nonneg[of "m - 1"] unfolding k_def by linarith
  have "y \<le> of_int m" by (simp add: m_def)
  also have "(of_int m :: rat) \<le> of_int (2 ^ nat k)"
    using hi by (simp only: of_int_le_iff)
  also have "\<dots> = pow2 k" using k1 by (simp add: pow2_nat)
  finally have "y \<le> pow2 k" .
  then have 1: "pow2 (- k) \<le> x"
    using y1 by (simp add: pow2_neg xy frac_le)
  have "pow2 (k - 1) = of_int (2 ^ nat (k - 1))" using k1 by (simp add: pow2_nat)
  also have "\<dots> \<le> of_int (m - 1)" using lo by (simp only: of_int_le_iff)
  also have "\<dots> < y" unfolding m_def by linarith
  finally have "pow2 (k - 1) < y" .
  then have "1 / y < 1 / pow2 (k - 1)"
    by (simp add: frac_less2)
  then have 2: "x < pow2 (- k + 1)"
    using pow2_neg[of "k - 1"] by (simp add: xy)
  from 1 2 False show ?thesis by (simp add: ilog2_def k_def m_def y_def)
qed

lemma ilog2_unique:
  assumes "pow2 e \<le> x" "x < pow2 (e + 1)"
  shows "ilog2 x = e"
proof -
  have x: "0 < x" using assms(1) pow2_pos[of e] by linarith
  from ilog2_bounds[OF x] have a: "pow2 (ilog2 x) \<le> x" and b: "x < pow2 (ilog2 x + 1)" by auto
  have "pow2 e < pow2 (ilog2 x + 1)" using assms(1) b by linarith
  then have "e < ilog2 x + 1" by (simp add: pow2_less_iff)
  moreover have "pow2 (ilog2 x) < pow2 (e + 1)" using assms(2) a by linarith
  then have "ilog2 x < e + 1" by (simp add: pow2_less_iff)
  ultimately show ?thesis by simp
qed

subsection \<open>Rounding\<close>

lemma round_even_near: "\<bar>of_int (round_even y) - y\<bar> \<le> 1 / 2"
proof -
  have "of_int \<lfloor>y\<rfloor> \<le> y" "y < of_int \<lfloor>y\<rfloor> + 1" by linarith+
  then show ?thesis
    by (auto simp: round_even_def Let_def)
qed

lemma round_even_int [simp]: "round_even (of_int n) = n"
  by (simp add: round_even_def)

lemma round_even_nonneg: "0 \<le> y \<Longrightarrow> 0 \<le> round_even y"
  by (auto simp: round_even_def Let_def)

lemma ilog2_ge:
  assumes "pow2 k \<le> x"
  shows "k \<le> ilog2 x"
proof -
  have x: "0 < x" using assms pow2_pos[of k] by linarith
  from ilog2_bounds[OF x] assms have "pow2 k < pow2 (ilog2 x + 1)" by linarith
  then show ?thesis by (simp add: pow2_less_iff)
qed

lemma ilog2_less:
  assumes "0 < x" "x < pow2 k"
  shows "ilog2 x < k"
proof -
  from ilog2_bounds[OF assms(1)] assms(2) have "pow2 (ilog2 x) < pow2 k" by linarith
  then show ?thesis by (simp add: pow2_less_iff)
qed

lemma fl_pos_error:
  assumes "pow2 (- 1022) \<le> x"
  shows "\<bar>fl_pos x - x\<bar> \<le> x * pow2 (- 53)"
proof -
  have x: "0 < x" using assms pow2_pos[of "- 1022"] by linarith
  define e where "e = ilog2 x"
  define u where "u = pow2 (e - 52)"
  have e: "- 1022 \<le> e" unfolding e_def using ilog2_ge[OF assms] .
  have u: "0 < u" by (simp add: u_def)
  have f: "fl_pos x = of_int (round_even (x / u)) * u"
    using e by (simp add: fl_pos_def Let_def e_def[symmetric] u_def max_def)
  have "\<bar>of_int (round_even (x / u)) - x / u\<bar> * u \<le> 1 / 2 * u"
    using round_even_near[of "x / u"] u by (intro mult_right_mono) auto
  moreover have "\<bar>of_int (round_even (x / u)) - x / u\<bar> * u
                 = \<bar>of_int (round_even (x / u)) * u - x\<bar>"
  proof -
    have "\<bar>of_int (round_even (x / u)) - x / u\<bar> * u
          = \<bar>(of_int (round_even (x / u)) - x / u) * u\<bar>"
      using u by (simp add: abs_mult)
    also have "(of_int (round_even (x / u)) - x / u) * u = of_int (round_even (x / u)) * u - x"
      using u by (simp add: algebra_simps)
    finally show ?thesis .
  qed
  ultimately have 1: "\<bar>fl_pos x - x\<bar> \<le> u / 2" by (simp add: f)
  have "u / 2 = pow2 e * pow2 (- 53)"
  proof -
    have "pow2 (e - 52) = pow2 (e + (- 53) + 1)" by simp
    also have "\<dots> = pow2 e * pow2 (- 53) * pow2 1"
      by (simp only: pow2_add)
    finally show ?thesis by (simp add: u_def pow2_1)
  qed
  also have "\<dots> \<le> x * pow2 (- 53)"
    using ilog2_bounds[OF x] by (intro mult_right_mono) (auto simp: e_def)
  finally show ?thesis using 1 by linarith
qed

lemma fl_pos_nonneg:
  assumes "0 \<le> x"
  shows "0 \<le> fl_pos x"
proof -
  define u where "u = pow2 (max (ilog2 x) (- 1022) - 52)"
  have "0 \<le> x / u" using assms by (simp add: u_def)
  then have "0 \<le> round_even (x / u)" by (rule round_even_nonneg)
  then have "0 \<le> (of_int (round_even (x / u)) :: rat) * u"
    by (simp add: u_def)
  then show ?thesis by (simp add: fl_pos_def Let_def u_def)
qed

lemma fl_nonneg: "0 \<le> x \<Longrightarrow> 0 \<le> fl x"
  by (simp add: fl_def fl_pos_nonneg)

lemma fl_error:
  assumes "pow2 (- 1022) \<le> x"
  shows "\<bar>fl x - x\<bar> \<le> x * pow2 (- 53)"
proof -
  have "0 < x" using assms pow2_pos[of "- 1022"] by linarith
  then show ?thesis using fl_pos_error[OF assms] by (simp add: fl_def)
qed

lemma fl_nat_exact:
  assumes "n < 2 ^ 53"
  shows "fl (of_nat n) = of_nat n"
proof (cases "n = 0")
  case True
  then show ?thesis by (simp add: fl_def)
next
  case False
  define x :: rat where "x = of_nat n"
  have x1: "1 \<le> x" using False by (simp add: x_def)
  have x53: "x < pow2 53"
  proof -
    have "(of_nat n :: rat) < of_nat (2 ^ 53)" using assms by (simp only: of_nat_less_iff)
    then show ?thesis by (simp add: x_def pow2_def)
  qed
  define e where "e = ilog2 x"
  have e0: "0 \<le> e" unfolding e_def using ilog2_ge[of 0 x] x1 by (simp add: pow2_0)
  have e52: "e \<le> 52" unfolding e_def using ilog2_less[of x 53] x1 x53 by simp
  define k where "k = nat (52 - e)"
  have u: "pow2 (e - 52) = 1 / 2 ^ k"
  proof -
    have "pow2 (e - 52) = pow2 (- (52 - e))" by simp
    also have "\<dots> = 1 / pow2 (52 - e)" by (rule pow2_neg)
    also have "pow2 (52 - e) = 2 ^ k" using e52 by (simp add: pow2_nat k_def)
    finally show ?thesis .
  qed
  have m: "max (ilog2 x) (- 1022) = e" using e0 by (simp add: e_def)
  have "x / pow2 (e - 52) = of_int (int n * 2 ^ k)"
    by (simp add: u x_def)
  then have "round_even (x / pow2 (e - 52)) = int n * 2 ^ k"
    by (simp only: round_even_int)
  moreover have "fl_pos x = of_int (round_even (x / pow2 (e - 52))) * pow2 (e - 52)"
    by (simp add: fl_pos_def Let_def m)
  ultimately have "fl_pos x = of_int (int n * 2 ^ k) * (1 / 2 ^ k)"
    by (simp only: u)
  then have "fl_pos x = x" by (simp add: x_def)
  then show ?thesis using x1 by (simp add: fl_def x_def)
qed

lemma to_double_Fin:
  assumes "0 \<le> fl x" "fl x < pow2 1024"
  shows "to_double x = Fin (fl x)"
proof -
  have "- pow2 1024 < 0" by simp
  then show ?thesis using assms by (simp add: to_double_def Let_def)
qed

lemma pow2_53_le: "(2::rat) ^ 53 < pow2 1024"
proof -
  have "pow2 53 < pow2 1024" by (simp add: pow2_less_iff)
  then show ?thesis by (simp add: pow2_def)
qed

lemma num_exact:
  assumes "n < 2 ^ 53"
  shows "num n = Fin (of_nat n)"
proof -
  have "(of_nat n :: rat) < of_nat (2 ^ 53)" using assms by (simp only: of_nat_less_iff)
  then have "(of_nat n :: rat) < pow2 1024" using pow2_53_le by simp
  then show ?thesis
    unfolding num_def using to_double_Fin[of "of_nat n"] fl_nat_exact[OF assms] by simp
qed

lemma foldl_sum_exact:
  assumes "k + sum_list (map f attempts) < 2 ^ 53"
  shows "foldl (\<lambda>sum a. js_add sum (num (f a))) (Fin (of_nat k)) attempts =
           Fin (of_nat (k + sum_list (map f attempts)))"
  using assms
proof (induction attempts arbitrary: k)
  case Nil
  then show ?case by simp
next
  case (Cons a attempts)
  have fa: "f a < 2 ^ 53" and ka: "k + f a < 2 ^ 53" using Cons.prems by auto
  have "js_add (Fin (of_nat k)) (num (f a)) = to_double (of_nat (k + f a))"
    by (simp add: num_exact[OF fa])
  also have "\<dots> = Fin (of_nat (k + f a))"
    using num_exact[OF ka] by (simp add: num_def)
  finally have s: "js_add (Fin (of_nat k)) (num (f a)) = Fin (of_nat (k + f a))" .
  have "k + f a + sum_list (map f attempts) < 2 ^ 53" using Cons.prems by simp
  from Cons.IH[OF this] s show ?case by (simp add: add.assoc)
qed

subsection \<open>The percentage\<close>

lemma half_gap:
  assumes "0 < t" "100 * of_nat s / of_nat t \<noteq> (of_int m + 1 / 2 :: rat)"
  shows "1 / (2 * of_nat t) \<le> \<bar>100 * of_nat s / of_nat t - (of_int m + 1 / 2 :: rat)\<bar>"
proof -
  define k where "k = 200 * int s - (2 * m + 1) * int t"
  have t: "(0::rat) < of_nat t" using assms(1) by simp
  have e: "100 * of_nat s / of_nat t - (of_int m + 1 / 2 :: rat) = of_int k / (2 * of_nat t)"
    using t by (simp add: k_def field_simps)
  have "k \<noteq> 0"
  proof
    assume "k = 0"
    with e have "100 * of_nat s / of_nat t - (of_int m + 1 / 2 :: rat) = 0" by simp
    with assms(2) show False by simp
  qed
  then have "1 \<le> \<bar>k\<bar>" by simp
  then have "(1::rat) \<le> \<bar>of_int k\<bar>" by (metis of_int_1 of_int_abs of_int_le_iff)
  then have "1 / (2 * of_nat t) \<le> \<bar>of_int k\<bar> / (2 * of_nat t :: rat)"
    using t by (simp add: divide_right_mono)
  also have "\<dots> = \<bar>of_int k / (2 * of_nat t :: rat)\<bar>" using t by simp
  finally show ?thesis by (simp only: e)
qed

lemma round_near:
  fixes z :: rat
  assumes t: "0 < t" and close: "\<bar>z - 100 * of_nat s / of_nat t\<bar> < 1 / (2 * of_nat t)"
  shows "near_percentage \<lfloor>z + 1 / 2\<rfloor> s t"
proof -
  define v :: rat where "v = 100 * of_nat s / of_nat t"
  define d :: rat where "d = 1 / (2 * of_nat t)"
  define r where "r = round v"
  have "1 \<le> (of_nat t :: rat)" using t by simp
  then have d: "0 < d" "d \<le> 1 / 2" by (simp_all add: d_def field_simps)
  have zv: "v - d < z" "z < v + d" using close by (auto simp: v_def d_def abs_less_iff)
  have r: "of_int r \<le> v + 1 / 2" "v + 1 / 2 < of_int r + 1"
    unfolding r_def round_def by linarith+
  show ?thesis
  proof (cases "frac v = 1 / 2")
    case True
    then have v: "v = of_int \<lfloor>v\<rfloor> + 1 / 2" by (simp add: frac_def)
    have fr: "r = \<lfloor>v\<rfloor> + 1"
      unfolding r_def round_def using v by linarith
    have "of_int (\<lfloor>v\<rfloor>) \<le> z + 1 / 2" "z + 1 / 2 < of_int (\<lfloor>v\<rfloor> + 2)"
      using zv d v by auto
    then have "\<lfloor>z + 1 / 2\<rfloor> = \<lfloor>v\<rfloor> \<or> \<lfloor>z + 1 / 2\<rfloor> = \<lfloor>v\<rfloor> + 1" by linarith
    then show ?thesis
      using True fr by (auto simp: near_percentage_def Let_def v_def[symmetric] r_def[symmetric])
  next
    case False
    have ne1: "v \<noteq> of_int (r - 1) + 1 / 2"
    proof
      assume a: "v = of_int (r - 1) + 1 / 2"
      then have "\<lfloor>v\<rfloor> = r - 1" by linarith
      with a have "frac v = 1 / 2" by (simp add: frac_def)
      with False show False by simp
    qed
    have ne2: "v \<noteq> of_int r + 1 / 2" using r by auto
    from half_gap[OF t, of s "r - 1"] ne1 have g1: "d \<le> \<bar>v - (of_int (r - 1) + 1 / 2)\<bar>"
      by (simp add: v_def d_def)
    from half_gap[OF t, of s r] ne2 have g2: "d \<le> \<bar>v - (of_int r + 1 / 2)\<bar>"
      by (simp add: v_def d_def)
    have "of_int r \<le> z + 1 / 2" "z + 1 / 2 < of_int r + 1"
      using g1 g2 r zv by auto
    then have "\<lfloor>z + 1 / 2\<rfloor> = r" by linarith
    then show ?thesis
      by (simp add: near_percentage_def Let_def v_def[symmetric] r_def[symmetric])
  qed
qed

lemma eps_val: "pow2 (- 53) = 1 / 2 ^ 53"
  using pow2_neg[of 53] by (simp add: pow2_def)

lemma pow2_small: "k \<le> 1000 \<Longrightarrow> 0 \<le> k \<Longrightarrow> (2::rat) ^ k < pow2 1024"
proof -
  assume "k \<le> 1000" "0 \<le> k"
  then have "pow2 (int k) < pow2 1024" by (simp add: pow2_less_iff)
  then show ?thesis by (simp add: pow2_def)
qed

lemma percent_near:
  assumes s: "s < 2 ^ 40" and t0: "0 < t" and t53: "t < 2 ^ 53"
  shows "\<exists>n. Math_round (js_mul (js_div (Fin (of_nat s)) (Fin (of_nat t))) (Fin 100)) =
              Fin (of_int n) \<and> near_percentage n s t"
proof (cases "s = 0")
  case True
  have "fl 0 = 0" by (simp add: fl_def)
  then have z: "to_double 0 = Fin 0" using to_double_Fin[of 0] by simp
  have "near_percentage 0 0 t" by (simp add: near_percentage_def)
  moreover have "\<lfloor>1 / 2 :: rat\<rfloor> = 0" by linarith
  ultimately show ?thesis using True t0 z
    by (intro exI[of _ 0]) simp
next
  case False
  define x :: rat where "x = of_nat s / of_nat t"
  define eps :: rat where "eps = pow2 (- 53)"
  have tr: "(0::rat) < of_nat t" using t0 by simp
  have sr: "(1::rat) \<le> of_nat s" using False by simp
  have s40: "(of_nat s :: rat) \<le> 2 ^ 40"
  proof -
    have "(of_nat s :: rat) \<le> of_nat (2 ^ 40)" using s by (simp only: of_nat_le_iff)
    then show ?thesis by simp
  qed
  have t53r: "(of_nat t :: rat) \<le> 2 ^ 53"
  proof -
    have "(of_nat t :: rat) \<le> of_nat (2 ^ 53)" using t53 by (simp only: of_nat_le_iff)
    then show ?thesis by simp
  qed
  have eps: "eps = 1 / 2 ^ 53" by (simp add: eps_def eps_val)
  have x_lo: "eps \<le> x"
  proof -
    have "1 / 2 ^ 53 \<le> 1 / (of_nat t :: rat)" using tr t53r by (simp add: frac_le)
    also have "\<dots> \<le> x" unfolding x_def using sr tr by (simp add: divide_right_mono)
    finally show ?thesis by (simp add: eps)
  qed
  have x_pos: "0 < x" unfolding x_def using sr tr by simp
  have x_hi: "x \<le> 2 ^ 40"
  proof -
    have "1 \<le> (of_nat t :: rat)" using t0 by simp
    then have "x \<le> of_nat s" unfolding x_def using sr
      by (simp add: field_simps mult_le_cancel_left1)
    with s40 show ?thesis by linarith
  qed
  have tiny: "pow2 (- 1022) \<le> eps" by (simp add: eps_def pow2_le_iff)
  have x_n: "pow2 (- 1022) \<le> x" using tiny x_lo by linarith
  define q where "q = fl x"
  have eq: "\<bar>q - x\<bar> \<le> x * eps" unfolding q_def eps_def by (rule fl_error[OF x_n])
  have xe: "x * eps \<le> x / 2" using x_pos by (simp add: eps)
  have q_lo: "x / 2 \<le> q" and q_hi: "q \<le> 2 * x" using eq xe x_pos by linarith+
  have "q < pow2 1024" using q_hi x_hi pow2_small[of 42] by simp
  moreover have "0 \<le> q" using q_lo x_pos by linarith
  ultimately have dq: "to_double x = Fin q" unfolding q_def by (intro to_double_Fin) auto
  define y where "y = q * 100"
  have y_n: "pow2 (- 1022) \<le> y" using q_lo x_n x_pos unfolding y_def by linarith
  define z where "z = fl y"
  have ez: "\<bar>z - y\<bar> \<le> y * eps" unfolding z_def eps_def by (rule fl_error[OF y_n])
  have y_pos: "0 < y" using q_lo x_pos unfolding y_def by linarith
  have ye: "y * eps \<le> y / 2" using y_pos by (simp add: eps)
  have "z \<le> 2 * y" "0 \<le> z" using ez ye y_pos by linarith+
  moreover have "2 * y < pow2 1024" using q_hi x_hi pow2_small[of 60] by (simp add: y_def)
  ultimately have dz: "to_double y = Fin z" unfolding z_def by (intro to_double_Fin) auto
  have val: "Math_round (js_mul (js_div (Fin (of_nat s)) (Fin (of_nat t))) (Fin 100)) =
        Fin (of_int \<lfloor>z + 1 / 2\<rfloor>)"
    using tr dq dz by (simp add: x_def[symmetric] y_def[symmetric])
  have "y * eps \<le> 200 * x * eps"
    using q_hi by (simp add: y_def eps)
  moreover have "\<bar>y - 100 * x\<bar> \<le> 100 * (x * eps)"
  proof -
    have "\<bar>y - 100 * x\<bar> = 100 * \<bar>q - x\<bar>" by (simp add: y_def abs_if)
    then show ?thesis using eq by simp
  qed
  ultimately have "\<bar>z - 100 * x\<bar> \<le> 300 * x * eps" using ez by linarith
  moreover have "300 * x * eps < 1 / (2 * of_nat t)"
  proof -
    define d :: rat where "d = 1 / (2 * of_nat t)"
    have d: "0 < d" using tr by (simp add: d_def)
    have a: "300 * x * eps = (600 * of_nat s * eps) * d"
      by (simp add: x_def d_def)
    have "600 * of_nat s * eps < 1"
      using s40 by (simp add: eps)
    then have "(600 * of_nat s * eps) * d < 1 * d"
      using d by (rule mult_strict_right_mono)
    then show ?thesis by (simp only: a d_def)
  qed
  ultimately have "\<bar>z - 100 * of_nat s / of_nat t\<bar> < 1 / (2 * of_nat t)"
    by (simp add: x_def)
  from round_near[OF t0 this] val show ?thesis by blast
qed

subsection \<open>The tie of 23 out of 40\<close>

lemma round_even_value:
  assumes "of_int m - 1 / 2 < y" "y < of_int m + 1 / 2"
  shows "round_even y = m"
proof -
  have "\<lfloor>y\<rfloor> = m \<or> \<lfloor>y\<rfloor> = m - 1" using assms by linarith
  then show ?thesis
  proof
    assume f: "\<lfloor>y\<rfloor> = m"
    then show ?thesis using assms by (simp add: round_even_def Let_def)
  next
    assume f: "\<lfloor>y\<rfloor> = m - 1"
    then show ?thesis using assms by (simp add: round_even_def Let_def)
  qed
qed

lemma fl_value:
  assumes "pow2 e \<le> x" "x < pow2 (e + 1)" "- 1022 \<le> e"
    and "of_int m - 1 / 2 < x / pow2 (e - 52)" "x / pow2 (e - 52) < of_int m + 1 / 2"
  shows "fl x = of_int m * pow2 (e - 52)"
proof -
  have x: "0 < x" using assms(1) pow2_pos[of e] by linarith
  have "ilog2 x = e" using assms(1,2) by (rule ilog2_unique)
  then have "max (ilog2 x) (- 1022) = e" using assms(3) by simp
  then have "fl_pos x = of_int (round_even (x / pow2 (e - 52))) * pow2 (e - 52)"
    by (simp add: fl_pos_def Let_def)
  then show ?thesis using x round_even_value[OF assms(4,5)] by (simp add: fl_def)
qed

lemma to_double_normal:
  assumes "pow2 (- 1022) \<le> x" "x < pow2 1023"
  shows "to_double x = Fin (fl x)"
proof -
  have x: "0 < x" using assms(1) pow2_pos[of "- 1022"] by linarith
  have "\<bar>fl x - x\<bar> \<le> x * pow2 (- 53)" by (rule fl_error[OF assms(1)])
  moreover have "x * pow2 (- 53) \<le> x" using x by (simp add: eps_val)
  ultimately have "fl x \<le> 2 * x" by linarith
  moreover have "2 * x < pow2 1024" using assms(2) pow2_Suc[of 1023] by simp
  ultimately have "fl x < pow2 1024" by linarith
  moreover have "0 \<le> fl x" using x by (simp add: fl_nonneg)
  ultimately show ?thesis by (rule to_double_Fin[rotated])
qed

lemma range_small: "pow2 (- 6) \<le> x \<Longrightarrow> x < pow2 7 \<Longrightarrow> pow2 (- 1022) \<le> x \<and> x < pow2 1023"
  using pow2_mono[of "- 1022" "- 6"] pow2_mono[of 7 1023] by simp

lemma div_23_40: "js_div (Fin 23) (Fin 40) = Fin (2589569785738035 / 4503599627370496)"
proof -
  have "fl (23 / 40) = of_int 5179139571476070 * pow2 (- 1 - 52)"
    by (rule fl_value) (simp_all add: pow2_def)
  moreover have "to_double (23 / 40) = Fin (fl (23 / 40))"
    using range_small[of "23 / 40"] to_double_normal[of "23 / 40"] by (simp add: pow2_def)
  ultimately show ?thesis by (simp add: pow2_def)
qed

lemma mul_23_40:
  "js_mul (Fin (2589569785738035 / 4503599627370496)) (Fin 100) =
     Fin (8092405580431359 / 140737488355328)"
proof -
  have "fl (2589569785738035 / 4503599627370496 * 100) = of_int 8092405580431359 * pow2 (5 - 52)"
    by (rule fl_value) (simp_all add: pow2_def)
  moreover have "to_double (2589569785738035 / 4503599627370496 * 100) =
      Fin (fl (2589569785738035 / 4503599627370496 * 100))"
    using range_small[of "2589569785738035 / 4503599627370496 * 100"]
      to_double_normal[of "2589569785738035 / 4503599627370496 * 100"] by (simp add: pow2_def)
  ultimately show ?thesis by (simp add: pow2_def)
qed

lemma round_57: "Math_round (Fin (8092405580431359 / 140737488355328)) = Fin 57"
proof -
  have "\<lfloor>8092405580431359 / 140737488355328 + 1 / 2 :: rat\<rfloor> = 57"
    by (rule floor_unique) simp_all
  then show ?thesis by simp
qed

subsection \<open>The maximum and the sums\<close>

lemma max_from_NaN: "NaN \<in> set xs \<Longrightarrow> Math_max_from h xs = NaN"
  by (induction xs arbitrary: h) auto

lemma max_from_PosInf_acc: "NaN \<notin> set xs \<Longrightarrow> Math_max_from PosInf xs = PosInf"
proof (induction xs)
  case Nil
  then show ?case by simp
next
  case (Cons x xs)
  have x: "x \<noteq> NaN" and xs: "NaN \<notin> set xs" using Cons.prems by auto
  have "js_less PosInf x = False" using x by (cases x) auto
  then show ?case using x Cons.IH[OF xs] by simp
qed

lemma max_from_PosInf:
  "NaN \<notin> set xs \<Longrightarrow> PosInf \<in> set xs \<Longrightarrow> h \<noteq> NaN \<Longrightarrow> Math_max_from h xs = PosInf"
proof (induction xs arbitrary: h)
  case Nil
  then show ?case by simp
next
  case (Cons x xs)
  have x: "x \<noteq> NaN" and xs: "NaN \<notin> set xs" using Cons.prems(1) by auto
  show ?case
  proof (cases "x = PosInf")
    case True
    have "(if js_less h PosInf then PosInf else h) = PosInf"
      using Cons.prems(3) by (cases h) auto
    then show ?thesis using True xs by (simp add: max_from_PosInf_acc)
  next
    case False
    then have "PosInf \<in> set xs" using Cons.prems(2) by auto
    moreover have "(if js_less h x then x else h) \<noteq> NaN" using x Cons.prems(3) by auto
    ultimately show ?thesis using x xs Cons.IH by simp
  qed
qed

lemma max_from_ints:
  "Math_max_from (Fin (of_int h)) (map (\<lambda>n. Fin (of_int n)) ns) = Fin (of_int (fold max ns h))"
proof (induction ns arbitrary: h)
  case Nil
  then show ?case by simp
next
  case (Cons n ns)
  have "(if js_less (Fin (of_int h)) (Fin (of_int n)) then Fin (of_int n) else Fin (of_int h))
          = Fin (of_int (max n h))"
    by (simp add: max_def)
  then show ?case using Cons.IH[of "max n h"] by simp
qed

lemma Math_max_ints:
  assumes "ns \<noteq> []"
  shows "Math_max (map (\<lambda>n. Fin (of_int n)) ns) = Fin (of_int (Max (set ns)))"
proof -
  obtain n ms where ns: "ns = n # ms" using assms by (cases ns) auto
  have "Math_max (map (\<lambda>n. Fin (of_int n)) ns) =
          Math_max_from (Fin (of_int n)) (map (\<lambda>n. Fin (of_int n)) ms)"
    by (simp add: Math_max_def ns)
  also have "\<dots> = Fin (of_int (fold max ms n))" by (rule max_from_ints)
  also have "fold max ms n = Max (set ns)" by (simp only: ns Max.set_eq_fold)
  finally show ?thesis .
qed

lemma num_cases: "(\<exists>y. 0 \<le> y \<and> num n = Fin y) \<or> num n = PosInf"
proof -
  have "0 \<le> fl (of_nat n)" by (simp add: fl_nonneg)
  moreover have "- pow2 1024 < 0" by simp
  ultimately show ?thesis
    by (auto simp: num_def to_double_def Let_def)
qed

lemma num_0: "num 0 = Fin 0"
  using num_exact[of 0] by simp

lemma percent_zero_total:
  "Math_round (js_mul (js_div (num s) (num 0)) (Fin 100)) = NaN \<or>
   Math_round (js_mul (js_div (num s) (num 0)) (Fin 100)) = PosInf"
proof -
  from num_cases[of s] show ?thesis
  proof (elim disjE exE conjE)
    fix y :: rat
    assume "0 \<le> y" "num s = Fin y"
    then show ?thesis by (cases "y = 0") (simp_all add: num_0 sign_inf_def)
  next
    assume "num s = PosInf"
    then show ?thesis by (simp add: num_0 sign_inf_def)
  qed
qed

lemma percent_zero_zero:
  "Math_round (js_mul (js_div (num 0) (num 0)) (Fin 100)) = NaN"
  by (simp add: num_0)

lemma best_zero_total:
  assumes "a \<in> set attempts" "total_questions a = 0"
  shows "bestScore (calculateStats attempts) = NaN \<or> bestScore (calculateStats attempts) = PosInf"
proof -
  define p where "p = (\<lambda>a :: QuizAttempt. Math_round
                     (js_mul (js_div (num (score a)) (num (total_questions a))) (Fin 100)))"
  have ne: "length attempts \<noteq> 0" using assms(1) by auto
  have b: "bestScore (calculateStats attempts) = Math_max (map p attempts)"
    using ne by (simp add: calculateStats_def Let_def p_def)
  have pa: "p a = NaN \<or> p a = PosInf"
    using percent_zero_total[of "score a"] assms(2) by (simp add: p_def)
  show ?thesis
  proof (cases "NaN \<in> set (map p attempts)")
    case True
    then show ?thesis by (simp add: b Math_max_def max_from_NaN)
  next
    case False
    then have "p a = PosInf" using pa assms(1) by force
    then have "PosInf \<in> set (map p attempts)" using assms(1) by force
    with False show ?thesis by (simp add: b Math_max_def max_from_PosInf)
  qed
qed

lemma best_zero_zero:
  assumes "a \<in> set attempts" "total_questions a = 0" "score a = 0"
  shows "bestScore (calculateStats attempts) = NaN"
proof -
  define p where "p = (\<lambda>a :: QuizAttempt. Math_round
                     (js_mul (js_div (num (score a)) (num (total_questions a))) (Fin 100)))"
  have ne: "length attempts \<noteq> 0" using assms(1) by auto
  have b: "bestScore (calculateStats attempts) = Math_max (map p attempts)"
    using ne by (simp add: calculateStats_def Let_def p_def)
  have "p a = NaN" using percent_zero_zero assms(2,3) by (simp add: p_def)
  then have "NaN \<in> set (map p attempts)" using assms(1) by force
  then show ?thesis by (simp add: b Math_max_def max_from_NaN)
qed

lemma sums_exact:
  assumes "sum_list (map f attempts) < 2 ^ 53"
  shows "foldl (\<lambda>sum a. js_add sum (num (f a))) (Fin 0) attempts =
           Fin (of_nat (sum_list (map f attempts)))"
  using foldl_sum_exact[of 0 f attempts] assms by simp

lemma stats_summary:
  assumes ne: "attempts \<noteq> []" and pos: "\<forall>a \<in> set attempts. 0 < total_questions a"
    and S: "sum_list (map score attempts) < 2 ^ 40"
    and T: "sum_list (map total_questions attempts) < 2 ^ 53"
  shows "(\<exists>n. avgScore (calculateStats attempts) = Fin (of_int n) \<and>
              near_percentage n (sum_list (map score attempts))
                (sum_list (map total_questions attempts))) \<and>
         (\<exists>f. (\<forall>a \<in> set attempts. near_percentage (f a) (score a) (total_questions a)) \<and>
              bestScore (calculateStats attempts) = Fin (of_int (Max (f ` set attempts))))"
proof -
  define p where "p = (\<lambda>a :: QuizAttempt. Math_round
                     (js_mul (js_div (num (score a)) (num (total_questions a))) (Fin 100)))"
  have len: "length attempts \<noteq> 0" using ne by simp
  have S53: "sum_list (map score attempts) < 2 ^ 53"
  proof -
    have "(2::nat) ^ 40 \<le> 2 ^ 53" by (rule power_increasing) simp_all
    with S show ?thesis by linarith
  qed
  obtain a0 where a0: "a0 \<in> set attempts" using ne by (cases attempts) auto
  have "total_questions a0 \<le> sum_list (map total_questions attempts)"
    using a0 by (simp add: member_le_sum_list)
  then have Tpos: "0 < sum_list (map total_questions attempts)" using pos a0 by force
  have avg: "avgScore (calculateStats attempts) =
      Math_round (js_mul (js_div (Fin (of_nat (sum_list (map score attempts))))
         (Fin (of_nat (sum_list (map total_questions attempts))))) (Fin 100))"
    using len by (simp add: calculateStats_def Let_def sums_exact[OF S53] sums_exact[OF T])
  have 1: "\<exists>n. avgScore (calculateStats attempts) = Fin (of_int n) \<and>
              near_percentage n (sum_list (map score attempts))
                (sum_list (map total_questions attempts))"
    unfolding avg by (rule percent_near[OF S Tpos T])
  have each: "\<exists>n. p a = Fin (of_int n) \<and> near_percentage n (score a) (total_questions a)"
    if a: "a \<in> set attempts" for a
  proof -
    have "score a \<le> sum_list (map score attempts)"
      "total_questions a \<le> sum_list (map total_questions attempts)"
      using a by (simp_all add: member_le_sum_list)
    then have s: "score a < 2 ^ 40" and t: "total_questions a < 2 ^ 53" using S T by linarith+
    have s53: "score a < 2 ^ 53" using \<open>score a \<le> _\<close> S53 by linarith
    have t0: "0 < total_questions a" using pos a by simp
    show ?thesis
      unfolding p_def num_exact[OF s53] num_exact[OF t] by (rule percent_near[OF s t0 t])
  qed
  then obtain f where f: "\<forall>a \<in> set attempts. p a = Fin (of_int (f a)) \<and>
      near_percentage (f a) (score a) (total_questions a)"
    by metis
  have m: "map p attempts = map (\<lambda>n. Fin (of_int n)) (map f attempts)"
    using f by (simp add: comp_def)
  have "map f attempts \<noteq> []" using ne by simp
  from Math_max_ints[OF this]
  have "Math_max (map p attempts) = Fin (of_int (Max (set (map f attempts))))"
    by (simp only: m)
  moreover have "bestScore (calculateStats attempts) = Math_max (map p attempts)"
    using len by (simp add: calculateStats_def Let_def p_def)
  ultimately have 2: "bestScore (calculateStats attempts) = Fin (of_int (Max (f ` set attempts)))"
    by (simp only: set_map)
  from 1 2 f show ?thesis by blast
qed

subsection \<open>The summary\<close>

text \<open>
  C2, as the code has it. The count is the length of the list, and for the empty list all
  three outputs are zero. For a non-empty list whose attempts all have a positive number
  of questions (with the sum of the scores below \<open>2 ^ 40\<close> and the sum of the totals
  below \<open>2 ^ 53\<close>), the average is the weighted percentage \<open>round (100 * S / T)\<close> of
  the sums, and the best is the greatest of the attempts' own percentages
  \<open>round (100 * score / total)\<close>, each of them up to the direction of the rounding when
  the exact percentage lies halfway between two integers.
\<close>

theorem calculateStats_summary:
  "calculateStats [] = \<lparr>totalQuizzes = 0, avgScore = Fin 0, bestScore = Fin 0\<rparr> \<and>
   totalQuizzes (calculateStats attempts) = length attempts \<and>
   (attempts \<noteq> [] \<and> (\<forall>a \<in> set attempts. 0 < total_questions a) \<and>
    sum_list (map score attempts) < 2 ^ 40 \<and>
    sum_list (map total_questions attempts) < 2 ^ 53 \<longrightarrow>
      (\<exists>n. avgScore (calculateStats attempts) = Fin (of_int n) \<and>
           near_percentage n (sum_list (map score attempts))
             (sum_list (map total_questions attempts))) \<and>
      (\<exists>f. (\<forall>a \<in> set attempts. near_percentage (f a) (score a) (total_questions a)) \<and>
           bestScore (calculateStats attempts) = Fin (of_int (Max (f ` set attempts)))))"
proof -
  have "calculateStats [] = \<lparr>totalQuizzes = 0, avgScore = Fin 0, bestScore = Fin 0\<rparr>"
    by (simp add: calculateStats_def)
  moreover have "totalQuizzes (calculateStats attempts) = length attempts"
    by (simp add: calculateStats_def Let_def)
  ultimately show ?thesis using stats_summary[of attempts] by blast
qed

theorem calculateStats_summary_witness:
  "totalQuizzes (calculateStats [example_attempt ''a1'' ''u1'' 8 10,
      example_attempt ''a2'' ''u1'' 5 10]) = 2 \<and>
   avgScore (calculateStats [example_attempt ''a1'' ''u1'' 8 10,
      example_attempt ''a2'' ''u1'' 5 10]) = Fin 65 \<and>
   bestScore (calculateStats [example_attempt ''a1'' ''u1'' 8 10,
      example_attempt ''a2'' ''u1'' 5 10]) = Fin 80"
proof -
  define a1 where "a1 = example_attempt ''a1'' ''u1'' 8 10"
  define a2 where "a2 = example_attempt ''a2'' ''u1'' 5 10"
  have v: "score a1 = 8" "total_questions a1 = 10" "score a2 = 5" "total_questions a2 = 10"
    by (simp_all add: a1_def a2_def example_attempt_def)
  have h: "[a1, a2] \<noteq> [] \<and> (\<forall>a \<in> set [a1, a2]. 0 < total_questions a) \<and>
    sum_list (map score [a1, a2]) < 2 ^ 40 \<and>
    sum_list (map total_questions [a1, a2]) < 2 ^ 53"
    by (simp add: v)
  have r: "round (65 :: rat) = 65" "round (80 :: rat) = 80" "round (50 :: rat) = 50"
    by (rule round_unique, simp, simp)+
  have fr: "frac (65 :: rat) = 0" "frac (80 :: rat) = 0" "frac (50 :: rat) = 0"
    by (simp_all add: frac_def)
  have n65: "n = 65" if "near_percentage n 13 20" for n
    using that r fr by (simp add: near_percentage_def)
  have n80: "n = 80" if "near_percentage n 8 10" for n
    using that r fr by (simp add: near_percentage_def)
  have n50: "n = 50" if "near_percentage n 5 10" for n
    using that r fr by (simp add: near_percentage_def)
  from calculateStats_summary[of "[a1, a2]"] h
  have c: "totalQuizzes (calculateStats [a1, a2]) = 2"
    and "\<exists>n. avgScore (calculateStats [a1, a2]) = Fin (of_int n) \<and> near_percentage n 13 20"
    and "\<exists>f. (near_percentage (f a1) 8 10 \<and> near_percentage (f a2) 5 10) \<and>
           bestScore (calculateStats [a1, a2]) = Fin (of_int (Max {f a1, f a2}))"
    by (simp_all add: v)
  then obtain n f where av: "avgScore (calculateStats [a1, a2]) = Fin (of_int n)"
    and n: "near_percentage n 13 20"
    and f1: "near_percentage (f a1) 8 10" and f2: "near_percentage (f a2) 5 10"
    and be: "bestScore (calculateStats [a1, a2]) = Fin (of_int (Max {f a1, f a2}))"
    by blast
  have "avgScore (calculateStats [a1, a2]) = Fin 65"
    using av n65[OF n] by simp
  moreover have "bestScore (calculateStats [a1, a2]) = Fin 80"
    using be n80[OF f1] n50[OF f2] by simp
  moreover note c
  ultimately show ?thesis by (simp add: a1_def a2_def)
qed


text \<open>
  Two attempts with 12 and 11 of 20: the exact average is 57.5, which rounds to 58, and
  the page computes 57, since \<open>(23 / 40) * 100\<close> in binary64 is just below 57.5. One
  attempt with no questions: the average and the best are NaN.
\<close>

theorem calculateStats_tie_counterexample:
  "avgScore (calculateStats [example_attempt ''a1'' ''u1'' 12 20,
      example_attempt ''a2'' ''u1'' 11 20]) = Fin 57 \<and>
   round (100 * of_nat (12 + 11) / of_nat (20 + 20) :: rat) = 58 \<and>
   avgScore (calculateStats [example_attempt ''a1'' ''u1'' 0 0]) = NaN \<and>
   bestScore (calculateStats [example_attempt ''a1'' ''u1'' 0 0]) = NaN"
proof -
  define a1 where "a1 = example_attempt ''a1'' ''u1'' 12 20"
  define a2 where "a2 = example_attempt ''a2'' ''u1'' 11 20"
  define a0 where "a0 = example_attempt ''a1'' ''u1'' 0 0"
  have v: "score a1 = 12" "total_questions a1 = 20" "score a2 = 11" "total_questions a2 = 20"
    "score a0 = 0" "total_questions a0 = 0"
    by (simp_all add: a1_def a2_def a0_def example_attempt_def)
  have s: "foldl (\<lambda>sum a. js_add sum (num (score a))) (Fin 0) [a1, a2] = Fin 23"
    using sums_exact[of score "[a1, a2]"] by (simp add: v)
  have t: "foldl (\<lambda>sum a. js_add sum (num (total_questions a))) (Fin 0) [a1, a2] = Fin 40"
    using sums_exact[of total_questions "[a1, a2]"] by (simp add: v)
  have 1: "avgScore (calculateStats [a1, a2]) = Fin 57"
    unfolding calculateStats_def Let_def s t
    by (simp add: div_23_40 mul_23_40 round_57
        del: js_div.simps js_mul.simps Math_round.simps)
  have 2: "round (100 * of_nat (12 + 11) / of_nat (20 + 20) :: rat) = 58"
    by (rule round_unique) simp_all
  have z: "js_add (Fin 0) (num 0) = Fin 0"
    using num_0 by (simp add: num_def)
  have 3: "avgScore (calculateStats [a0]) = NaN"
    by (simp add: calculateStats_def Let_def v z)
  have 4: "bestScore (calculateStats [a0]) = NaN"
    using best_zero_zero[of a0 "[a0]"] by (simp add: v)
  from 1 2 3 4 show ?thesis by (simp add: a1_def a2_def a0_def)
qed

text \<open>
  C10. When the generator answers with an empty array, \<open>generateQuiz\<close> creates an
  attempt with \<open>total_questions = 0\<close>. For every list of attempts that has an attempt
  with no questions, the best percentage is NaN or infinite: the division by
  \<open>total_questions\<close> is not guarded; it is NaN when that attempt's score is 0, as the
  created attempt's is.
\<close>

theorem zero_total_unguarded:
  "(invoke env \<lparr>subject = join subjs, skillLevel = skill, questionCount = cnt\<rparr>
      = Invoke_data (Some []) \<and>
    session_user env = Some u \<and> attempt_insert env = Reaches \<and>
    skill \<in> set skill_levels \<and> valid_uuid (new_id env) \<and>
    new_id env \<notin> set (map row_id (quiz_attempts d)) \<longrightarrow>
      generateQuiz skill subjs cnt env (Quiz_init, d) =
        (Quiz_init\<lparr>attemptId := new_id env, loading := False\<rparr>,
         d\<lparr>quiz_attempts := quiz_attempts d @
            [\<lparr>row_id = new_id env, user_id = u, skill_level = skill, subjects = subjs,
              question_count = cnt, score = 0, total_questions = 0\<rparr>]\<rparr>, [])) \<and>
   (a \<in> set attempts \<and> total_questions a = 0 \<longrightarrow>
      bestScore (calculateStats attempts) = NaN \<or>
      bestScore (calculateStats attempts) = PosInf) \<and>
   (a \<in> set attempts \<and> total_questions a = 0 \<and> score a = 0 \<longrightarrow>
      bestScore (calculateStats attempts) = NaN)"
proof -
  have "generateQuiz skill subjs cnt env (Quiz_init, d) =
        (Quiz_init\<lparr>attemptId := new_id env, loading := False\<rparr>,
         d\<lparr>quiz_attempts := quiz_attempts d @
            [\<lparr>row_id = new_id env, user_id = u, skill_level = skill, subjects = subjs,
              question_count = cnt, score = 0, total_questions = 0\<rparr>]\<rparr>, [])"
    if "invoke env \<lparr>subject = join subjs, skillLevel = skill, questionCount = cnt\<rparr>
      = Invoke_data (Some [])" "session_user env = Some u" "attempt_insert env = Reaches"
      "skill \<in> set skill_levels" "valid_uuid (new_id env)"
      "new_id env \<notin> set (map row_id (quiz_attempts d))"
    using that unfolding generateQuiz_def join_single
    by (simp add: create_attempt_def Quiz_init_def)
  then show ?thesis
    using best_zero_total[of a attempts] best_zero_zero[of a attempts] by blast
qed

theorem zero_total_unguarded_witness:
  "generateQuiz ''Beginner'' [''Mathematics''] 5 empty_gen_env (Quiz_init, example_db) =
     (Quiz_init\<lparr>attemptId := ''a2'', loading := False\<rparr>,
      \<lparr>quiz_attempts = [example_attempt ''a1'' ''u1'' 0 3,
         \<lparr>row_id = ''a2'', user_id = ''u1'', skill_level = ''Beginner'',
          subjects = [''Mathematics''], question_count = 5, score = 0, total_questions = 0\<rparr>],
       quiz_questions = [], update_policy = False, delete_policy = False\<rparr>, []) \<and>
   bestScore (calculateStats
     [\<lparr>row_id = ''a2'', user_id = ''u1'', skill_level = ''Beginner'',
       subjects = [''Mathematics''], question_count = 5, score = 0, total_questions = 0\<rparr>,
      example_attempt ''a1'' ''u1'' 8 10]) = NaN"
proof -
  define a where "a = \<lparr>row_id = ''a2'', user_id = ''u1'', skill_level = ''Beginner'',
       subjects = [''Mathematics''], question_count = 5, score = 0, total_questions = 0\<rparr>"
  have h: "invoke empty_gen_env
      \<lparr>subject = join [''Mathematics''], skillLevel = ''Beginner'', questionCount = 5\<rparr>
      = Invoke_data (Some []) \<and>
    session_user empty_gen_env = Some ''u1'' \<and> attempt_insert empty_gen_env = Reaches \<and>
    ''Beginner'' \<in> set skill_levels \<and> valid_uuid (new_id empty_gen_env) \<and>
    new_id empty_gen_env \<notin> set (map row_id (quiz_attempts example_db))"
    by (simp add: empty_gen_env_def skill_levels_def valid_uuid_def example_db_def
        example_attempt_def)
  have m: "a \<in> set [a, example_attempt ''a1'' ''u1'' 8 10] \<and> total_questions a = 0 \<and> score a = 0"
    by (simp add: a_def)
  from zero_total_unguarded[of empty_gen_env "[''Mathematics'']" "''Beginner''" 5 "''u1''"
      example_db a "[a, example_attempt ''a1'' ''u1'' 8 10]"] h m
  show ?thesis
    by (simp add: a_def empty_gen_env_def example_db_def)
qed

end
